theory Spec2Isabelle
  imports Complex_Main "HOL-Library.Sublist"
begin

section \<open>Data model\<close>

text \<open>
  The player of \<^verbatim>\<open>src/unnamed/part_000\<close> and of \<^verbatim>\<open>src/src/index.ts\<close> (the same session
  node, without the events of the position) drives the libopenmpt decode engine from a
  ScriptProcessorNode callback. The engine, the WebAssembly heap and the registered
  callbacks are outside the repository: the engine is a record of functions over an engine
  state \<open>'e\<close>, a registered callback is a value of a type \<open>'h\<close> that a parameter \<open>run\<close>
  interprets, and every call that leaves the player is written to a list of effects, in
  order.
\<close>

text \<open>The event payloads the source builds: none, \<^verbatim>\<open>{ type: ... }\<close> and \<^verbatim>\<open>{ index: ... }\<close>.\<close>

datatype payload = Undefined | ErrorType string | RowIndex int

text \<open>
  How a call ends: it returns, or an exception leaves it. The source has no
  \<^verbatim>\<open>try\<close>, so an exception of a callback leaves every caller up to the host.
\<close>

datatype completion = Normal | Abrupt

datatype exn = TypeError

text \<open>
  The calls that leave the player. \<open>Read m n l r a\<close> is
  \<^verbatim>\<open>_openmpt_module_read_float_stereo(m, sampleRate, n, l, r)\<close> returning \<open>a\<close>;
  \<open>Fire\<close> marks a call of \<^verbatim>\<open>fireEvent\<close>; \<open>Invoke h p es\<close> is one call \<^verbatim>\<open>handler.handler(p)\<close>
  and \<open>es\<close> the effects of the callback's body.
\<close>

datatype 'h effect =
    Malloc int int
  | Free int
  | HeapSet int
  | CreateFromMemory int int int
  | GetNumChannels int
  | SetRepeatCount int int
  | Destroy int
  | Read int int int int int
  | GetCurrentPattern int
  | GetCurrentRow int
  | Connect nat
  | Disconnect nat
  | Fire string payload
  | Invoke 'h payload "'h effect list"

text \<open>
  The engine module \<^verbatim>\<open>libopenmpt\<close>. \<open>HEAPF32_subarray e p a i\<close> is the number
  \<^verbatim>\<open>libopenmpt.HEAPF32.subarray(p / 4, (p / 4) + a)[i]\<close> as a Float32Array stores it;
  the strings are the engine's after \<^verbatim>\<open>UTF8ToString\<close>. The sample rate of the
  call is the audio context's and is part of the engine here.
\<close>

record ('e, 's) libopenmpt =
  malloc :: "'e \<Rightarrow> int \<Rightarrow> int \<times> 'e"
  free :: "'e \<Rightarrow> int \<Rightarrow> 'e"
  HEAPU8_set :: "'e \<Rightarrow> int list \<Rightarrow> int \<Rightarrow> 'e"
  HEAPF32_subarray :: "'e \<Rightarrow> int \<Rightarrow> int \<Rightarrow> nat \<Rightarrow> 's"
  openmpt_module_create_from_memory :: "'e \<Rightarrow> int \<Rightarrow> int \<Rightarrow> int \<times> 'e"
  openmpt_module_destroy :: "'e \<Rightarrow> int \<Rightarrow> 'e"
  openmpt_module_get_num_channels :: "'e \<Rightarrow> int \<Rightarrow> int"
  openmpt_module_set_repeat_count :: "'e \<Rightarrow> int \<Rightarrow> int \<Rightarrow> 'e"
  openmpt_module_read_float_stereo :: "'e \<Rightarrow> int \<Rightarrow> int \<Rightarrow> int \<Rightarrow> int \<Rightarrow> int \<times> 'e"
  openmpt_module_get_current_pattern :: "'e \<Rightarrow> int \<Rightarrow> int"
  openmpt_module_get_current_row :: "'e \<Rightarrow> int \<Rightarrow> int"
  openmpt_module_get_current_speed :: "'e \<Rightarrow> int \<Rightarrow> int"
  openmpt_module_get_current_tempo :: "'e \<Rightarrow> int \<Rightarrow> int"
  openmpt_module_get_duration_seconds :: "'e \<Rightarrow> int \<Rightarrow> real"
  openmpt_module_get_position_seconds :: "'e \<Rightarrow> int \<Rightarrow> real"
  openmpt_module_get_metadata_keys :: "'e \<Rightarrow> int \<Rightarrow> string"
  openmpt_module_get_metadata :: "'e \<Rightarrow> int \<Rightarrow> int \<Rightarrow> string"
  writeAsciiToMemory :: "'e \<Rightarrow> string \<Rightarrow> int \<Rightarrow> 'e"

text \<open>
  \<^verbatim>\<open>IProcessNode\<close>: the fields the session adds to the ScriptProcessorNode, and
  \<open>connected\<close> for the node's connection to the output graph. The timing fields
  (\<^verbatim>\<open>perf\<close>) are wall-clock diagnostics and are left out.
\<close>

record node =
  modulePtr :: int
  leftBufferPtr :: int
  rightBufferPtr :: int
  nbChannels :: int
  patternIndex :: int
  paused :: bool
  connected :: bool

text \<open>
  \<^verbatim>\<open>ChiptuneJsPlayer\<close>, with the node objects in a store: \<^verbatim>\<open>currentPlayingNode\<close> and the
  callback's \<^verbatim>\<open>this\<close> are references to the same object. The arrays of registrations
  are objects of a second store, and the property \<^verbatim>\<open>handlers\<close> is a reference to one of
  them: a callback can change the array in place, as \<^verbatim>\<open>addHandler\<close> does, or assign
  another array to the property, and an iteration that has started goes on over the array
  it started on.
\<close>

record ('e, 'h) player =
  nodes :: "nat \<Rightarrow> node"
  next_node :: nat
  currentPlayingNode :: "nat option"
  handlers :: nat
  arrays :: "nat \<Rightarrow> (string \<times> 'h) list"
  touchLocked :: bool
  repeatCount :: int
  engine :: 'e

text \<open>What a call that may throw gives back.\<close>

record ('e, 'h) outcome =
  state :: "('e, 'h) player"
  compl :: completion
  effects :: "'h effect list"

record ('e, 'h, 's) rendered = "('e, 'h) outcome" +
  outputL :: "'s list"
  outputR :: "'s list"

type_synonym ('e, 'h) callback =
  "'h \<Rightarrow> payload \<Rightarrow> ('e, 'h) player \<Rightarrow> ('e, 'h) outcome"

section \<open>The session node\<close>

definition maxFramesPerChunk :: nat where
  "maxFramesPerChunk = 4096"

text \<open>
  A store into a Float32Array: an index outside the array is ignored.
\<close>

definition ta_set :: "'s list \<Rightarrow> int \<Rightarrow> 's \<Rightarrow> 's list" where
  "ta_set xs i v = (if 0 \<le> i \<and> i < int (length xs) then xs[nat i := v] else xs)"

definition upd_node :: "nat \<Rightarrow> (node \<Rightarrow> node) \<Rightarrow> ('e, 'h) player \<Rightarrow> ('e, 'h) player" where
  "upd_node self f s = s\<lparr>nodes := (nodes s)(self := f (nodes s self))\<rparr>"

definition disconnect :: "nat \<Rightarrow> ('e, 'h) player \<Rightarrow> ('e, 'h) player \<times> 'h effect list" where
  "disconnect self s = (upd_node self (\<lambda>n. n\<lparr>connected := False\<rparr>) s, [Disconnect self])"

definition connect :: "nat \<Rightarrow> ('e, 'h) player \<Rightarrow> ('e, 'h) player \<times> 'h effect list" where
  "connect self s = (upd_node self (\<lambda>n. n\<lparr>connected := True\<rparr>) s, [Connect self])"

definition release_module ::
  "('e, 's) libopenmpt \<Rightarrow> nat \<Rightarrow> ('e, 'h) player \<Rightarrow> ('e, 'h) player \<times> 'h effect list" where
  "release_module lib self s =
     (if modulePtr (nodes s self) \<noteq> 0
      then (upd_node self (\<lambda>n. n\<lparr>modulePtr := 0\<rparr>)
              (s\<lparr>engine := openmpt_module_destroy lib (engine s) (modulePtr (nodes s self))\<rparr>),
            [Destroy (modulePtr (nodes s self))])
      else (s, []))"

definition release_left ::
  "('e, 's) libopenmpt \<Rightarrow> nat \<Rightarrow> ('e, 'h) player \<Rightarrow> ('e, 'h) player \<times> 'h effect list" where
  "release_left lib self s =
     (if leftBufferPtr (nodes s self) \<noteq> 0
      then (upd_node self (\<lambda>n. n\<lparr>leftBufferPtr := 0\<rparr>)
              (s\<lparr>engine := free lib (engine s) (leftBufferPtr (nodes s self))\<rparr>),
            [Free (leftBufferPtr (nodes s self))])
      else (s, []))"

definition release_right ::
  "('e, 's) libopenmpt \<Rightarrow> nat \<Rightarrow> ('e, 'h) player \<Rightarrow> ('e, 'h) player \<times> 'h effect list" where
  "release_right lib self s =
     (if rightBufferPtr (nodes s self) \<noteq> 0
      then (upd_node self (\<lambda>n. n\<lparr>rightBufferPtr := 0\<rparr>)
              (s\<lparr>engine := free lib (engine s) (rightBufferPtr (nodes s self))\<rparr>),
            [Free (rightBufferPtr (nodes s self))])
      else (s, []))"

text \<open>\<^verbatim>\<open>processNode.cleanup\<close>: the three guarded releases, in the source's order.\<close>

definition cleanup ::
  "('e, 's) libopenmpt \<Rightarrow> nat \<Rightarrow> ('e, 'h) player \<Rightarrow> ('e, 'h) player \<times> 'h effect list" where
  "cleanup lib self s =
     (case release_module lib self s of (s1, e1) \<Rightarrow>
      case release_left lib self s1 of (s2, e2) \<Rightarrow>
      case release_right lib self s2 of (s3, e3) \<Rightarrow> (s3, e1 @ e2 @ e3))"

text \<open>\<^verbatim>\<open>processNode.pause\<close>, \<^verbatim>\<open>unpause\<close> and \<^verbatim>\<open>togglePause\<close>.\<close>

definition pause :: "nat \<Rightarrow> ('e, 'h) player \<Rightarrow> ('e, 'h) player" where
  "pause self s = upd_node self (\<lambda>n. n\<lparr>paused := True\<rparr>) s"

definition unpause :: "nat \<Rightarrow> ('e, 'h) player \<Rightarrow> ('e, 'h) player" where
  "unpause self s = upd_node self (\<lambda>n. n\<lparr>paused := False\<rparr>) s"

definition togglePause :: "nat \<Rightarrow> ('e, 'h) player \<Rightarrow> ('e, 'h) player" where
  "togglePause self s = upd_node self (\<lambda>n. n\<lparr>paused := \<not> paused n\<rparr>) s"

text \<open>
  \<^verbatim>\<open>fireEvent\<close>. \<^verbatim>\<open>this.handlers.forEach\<close> reads the property once: \<open>a\<close> is the array
  object it is called on, and the iteration stays on that object whatever the callbacks
  assign to the property. \<^verbatim>\<open>Array.prototype.forEach\<close> fixes the number of indices when it
  is called and reads its array again at each index; an index the array no longer has is
  skipped. The argument \<open>n\<close> of \<open>forEach_handlers\<close> counts the indices left, \<open>k\<close> is the
  index. There is no \<^verbatim>\<open>try\<close>: an exception of a callback ends the iteration.
\<close>

primrec forEach_handlers ::
  "('e, 'h) callback \<Rightarrow> string \<Rightarrow> payload \<Rightarrow> nat \<Rightarrow> nat \<Rightarrow> nat \<Rightarrow> ('e, 'h) player \<Rightarrow>
   ('e, 'h) outcome" where
  "forEach_handlers run eventName response a 0 k s =
     \<lparr>state = s, compl = Normal, effects = []\<rparr>"
| "forEach_handlers run eventName response a (Suc n) k s =
     (if k < length (arrays s a) \<and> fst (arrays s a ! k) = eventName
      then (case compl (run (snd (arrays s a ! k)) response s) of
              Abrupt \<Rightarrow>
                \<lparr>state = state (run (snd (arrays s a ! k)) response s), compl = Abrupt,
                 effects = [Invoke (snd (arrays s a ! k)) response
                              (effects (run (snd (arrays s a ! k)) response s))]\<rparr>
            | Normal \<Rightarrow>
                (forEach_handlers run eventName response a n (Suc k)
                   (state (run (snd (arrays s a ! k)) response s)))
                \<lparr>effects :=
                   Invoke (snd (arrays s a ! k)) response
                     (effects (run (snd (arrays s a ! k)) response s)) #
                   effects (forEach_handlers run eventName response a n (Suc k)
                     (state (run (snd (arrays s a ! k)) response s)))\<rparr>)
      else forEach_handlers run eventName response a n (Suc k) s)"

definition fireEvent ::
  "('e, 'h) callback \<Rightarrow> string \<Rightarrow> payload \<Rightarrow> ('e, 'h) player \<Rightarrow> ('e, 'h) outcome" where
  "fireEvent run eventName response s =
     (if length (arrays s (handlers s)) \<noteq> 0
      then (forEach_handlers run eventName response (handlers s)
              (length (arrays s (handlers s))) 0 s)
             \<lparr>effects := Fire eventName response #
                effects (forEach_handlers run eventName response (handlers s)
                  (length (arrays s (handlers s))) 0 s)\<rparr>
      else \<lparr>state = s, compl = Normal, effects = [Fire eventName response]\<rparr>)"

text \<open>\<^verbatim>\<open>addHandler\<close>: \<^verbatim>\<open>this.handlers.push({ eventName, handler })\<close>.\<close>

definition addHandler :: "string \<Rightarrow> 'h \<Rightarrow> ('e, 'h) player \<Rightarrow> ('e, 'h) player" where
  "addHandler eventName handler s =
     s\<lparr>arrays := (arrays s)(handlers s := arrays s (handlers s) @ [(eventName, handler)])\<rparr>"

text \<open>
  The two loops that fill a buffer with zero when the handle is zero or the session is
  paused: \<^verbatim>\<open>for (let i = 0; i < framesToRender; ++i) { outputL[i] = 0; outputR[i] = 0 }\<close>.
\<close>

definition silence :: "nat \<Rightarrow> ('s::zero) list \<times> 's list \<Rightarrow> 's list \<times> 's list" where
  "silence framesToRender out =
     fold (\<lambda>i (l, r). (ta_set l (int i) 0, ta_set r (int i) 0)) [0..<framesToRender] out"

text \<open>The local variables of the chunk loop of \<^verbatim>\<open>onaudioprocess\<close>.\<close>

record ('e, 'h, 's) chunk_loop =
  framesToRender :: nat
  framesRendered :: nat
  ended :: bool
  error :: bool
  outL :: "'s list"
  outR :: "'s list"
  session :: "('e, 'h) player"
  calls :: "'h effect list"

text \<open>
  The copy of the frames the engine produced,
  \<^verbatim>\<open>for (let i = 0; i < actualFramesPerChunk; ++i)\<close>, and the zero fill of the rest of the
  chunk, \<^verbatim>\<open>for (let i = actualFramesPerChunk; i < framesPerChunk; ++i)\<close>. The count the
  engine returns is a number of either sign.
\<close>

definition copy_chunk ::
  "(nat \<Rightarrow> 's) \<Rightarrow> (nat \<Rightarrow> 's) \<Rightarrow> nat \<Rightarrow> int \<Rightarrow> 's list \<times> 's list \<Rightarrow> 's list \<times> 's list" where
  "copy_chunk rawAudioLeft rawAudioRight rendered actualFramesPerChunk out =
     fold (\<lambda>i (l, r). (ta_set l (int rendered + int i) (rawAudioLeft i),
                        ta_set r (int rendered + int i) (rawAudioRight i)))
       [0..<nat actualFramesPerChunk] out"

definition zero_chunk ::
  "nat \<Rightarrow> int \<Rightarrow> nat \<Rightarrow> ('s::zero) list \<times> 's list \<Rightarrow> 's list \<times> 's list" where
  "zero_chunk rendered actualFramesPerChunk framesPerChunk out =
     fold (\<lambda>i (l, r). (ta_set l (int rendered + i) 0, ta_set r (int rendered + i) 0))
       [actualFramesPerChunk..int framesPerChunk - 1] out"

text \<open>
  One iteration of \<^verbatim>\<open>while (framesToRender > 0)\<close>: the size of the chunk, the call of
  the engine, and the body.
\<close>

definition framesPerChunk :: "('e, 'h, 's) chunk_loop \<Rightarrow> nat" where
  "framesPerChunk v = min (framesToRender v) maxFramesPerChunk"

definition read_chunk ::
  "('e, 's) libopenmpt \<Rightarrow> nat \<Rightarrow> ('e, 'h, 's) chunk_loop \<Rightarrow> int \<times> 'e" where
  "read_chunk lib self v =
     openmpt_module_read_float_stereo lib (engine (session v))
       (modulePtr (nodes (session v) self)) (int (framesPerChunk v))
       (leftBufferPtr (nodes (session v) self)) (rightBufferPtr (nodes (session v) self))"

definition render_chunk ::
  "('e, 's::zero) libopenmpt \<Rightarrow> nat \<Rightarrow> ('e, 'h, 's) chunk_loop \<Rightarrow> ('e, 'h, 's) chunk_loop" where
  "render_chunk lib self v =
     (let this = nodes (session v) self;
          actualFramesPerChunk = fst (read_chunk lib self v);
          out = zero_chunk (framesRendered v) actualFramesPerChunk (framesPerChunk v)
                  (copy_chunk
                     (HEAPF32_subarray lib (snd (read_chunk lib self v)) (leftBufferPtr this)
                        actualFramesPerChunk)
                     (HEAPF32_subarray lib (snd (read_chunk lib self v)) (rightBufferPtr this)
                        actualFramesPerChunk)
                     (framesRendered v) actualFramesPerChunk (outL v, outR v))
      in \<lparr>framesToRender = framesToRender v - framesPerChunk v,
          framesRendered = framesRendered v + framesPerChunk v,
          ended = (if actualFramesPerChunk = 0 then True else ended v),
          error = (if actualFramesPerChunk = 0 then modulePtr this = 0 else error v),
          outL = fst out,
          outR = snd out,
          session = (session v)\<lparr>engine := snd (read_chunk lib self v)\<rparr>,
          calls = calls v @ [Read (modulePtr this) (int (framesPerChunk v)) (leftBufferPtr this)
                               (rightBufferPtr this) actualFramesPerChunk]\<rparr>)"

function render_loop ::
  "('e, 's::zero) libopenmpt \<Rightarrow> nat \<Rightarrow> ('e, 'h, 's) chunk_loop \<Rightarrow> ('e, 'h, 's) chunk_loop" where
  "render_loop lib self v =
     (if framesToRender v > 0 then render_loop lib self (render_chunk lib self v) else v)"
  by pat_completeness auto
termination
  by (relation "measure (\<lambda>(lib, self, v). framesToRender v)")
     (auto simp: render_chunk_def Let_def framesPerChunk_def maxFramesPerChunk_def)

text \<open>
  The end of the callback:
  \<^verbatim>\<open>if (ended) { this.disconnect(); this.cleanup(); error ? fireEvent('onError', { type: 'openmpt' }) : fireEvent('onEnded') }\<close>.
\<close>

definition end_of_stream ::
  "('e, 's) libopenmpt \<Rightarrow> ('e, 'h) callback \<Rightarrow> nat \<Rightarrow> bool \<Rightarrow> bool \<Rightarrow> ('e, 'h) player \<Rightarrow>
   ('e, 'h) outcome" where
  "end_of_stream lib run self finished err s =
     (if finished
      then (case disconnect self s of (s1, e1) \<Rightarrow>
            case cleanup lib self s1 of (s2, e2) \<Rightarrow>
              (if err
               then (fireEvent run ''onError'' (ErrorType ''openmpt'') s2)
                      \<lparr>effects := e1 @ e2 @
                         effects (fireEvent run ''onError'' (ErrorType ''openmpt'') s2)\<rparr>
               else (fireEvent run ''onEnded'' Undefined s2)
                      \<lparr>effects := e1 @ e2 @ effects (fireEvent run ''onEnded'' Undefined s2)\<rparr>))
      else \<lparr>state = s, compl = Normal, effects = []\<rparr>)"

text \<open>
  The callback from \<^verbatim>\<open>let ended = false\<close> on, without the events of the position: the
  locals as they are before the loop, then the chunk loop and the end of the callback. Both
  files have it.
\<close>

definition start_loop :: "'s list \<times> 's list \<Rightarrow> ('e, 'h) player \<Rightarrow> ('e, 'h, 's) chunk_loop" where
  "start_loop out s =
     \<lparr>framesToRender = length (fst out), framesRendered = 0, ended = False, error = False,
      outL = fst out, outR = snd out, session = s, calls = []\<rparr>"

definition render_frames ::
  "('e, 's::zero) libopenmpt \<Rightarrow> ('e, 'h) callback \<Rightarrow> nat \<Rightarrow> 's list \<times> 's list \<Rightarrow>
   ('e, 'h) player \<Rightarrow> ('e, 'h, 's) rendered" where
  "render_frames lib run self out s =
     (let v = render_loop lib self (start_loop out s);
          r = end_of_stream lib run self (ended v) (error v) (session v)
      in \<lparr>state = state r, compl = compl r, effects = calls v @ effects r,
          outputL = outL v, outputR = outR v\<rparr>)"

text \<open>
  The branches both files start the callback with: a zero handle (silence, disconnect and
  cleanup) and a paused session (silence).
\<close>

definition dead_session ::
  "('e, 's::zero) libopenmpt \<Rightarrow> nat \<Rightarrow> 's list \<times> 's list \<Rightarrow> ('e, 'h) player \<Rightarrow>
   ('e, 'h, 's) rendered" where
  "dead_session lib self out s =
     (case disconnect self s of (s1, e1) \<Rightarrow>
      case cleanup lib self s1 of (s2, e2) \<Rightarrow>
        \<lparr>state = s2, compl = Normal, effects = e1 @ e2,
         outputL = fst (silence (length (fst out)) out),
         outputR = snd (silence (length (fst out)) out)\<rparr>)"

definition paused_session ::
  "'s list \<times> 's list \<Rightarrow> ('e, 'h) player \<Rightarrow> ('e, 'h, 's::zero) rendered" where
  "paused_session out s =
     \<lparr>state = s, compl = Normal, effects = [],
      outputL = fst (silence (length (fst out)) out),
      outputR = snd (silence (length (fst out)) out)\<rparr>"

text \<open>\<^verbatim>\<open>processNode.onaudioprocess\<close> of \<^verbatim>\<open>src/src/index.ts\<close>.\<close>

definition onaudioprocess_index ::
  "('e, 's::zero) libopenmpt \<Rightarrow> ('e, 'h) callback \<Rightarrow> nat \<Rightarrow> 's list \<times> 's list \<Rightarrow>
   ('e, 'h) player \<Rightarrow> ('e, 'h, 's) rendered" where
  "onaudioprocess_index lib run self out s =
     (if modulePtr (nodes s self) = 0 then dead_session lib self out s
      else if paused (nodes s self) then paused_session out s
      else render_frames lib run self out s)"

text \<open>
  The events of the position in \<^verbatim>\<open>src/unnamed/part_000\<close>: the pattern and the row are
  read from the engine, \<^verbatim>\<open>onPatternChange\<close> is fired when the pattern is not
  \<^verbatim>\<open>this.patternIndex\<close>, then \<^verbatim>\<open>onRowChange\<close> is fired. No statement of the file assigns
  \<^verbatim>\<open>patternIndex\<close> after \<^verbatim>\<open>processNode.patternIndex = -1\<close>.
\<close>

definition position_events ::
  "('e, 's) libopenmpt \<Rightarrow> ('e, 'h) callback \<Rightarrow> nat \<Rightarrow> ('e, 'h) player \<Rightarrow> ('e, 'h) outcome" where
  "position_events lib run self s =
     (let currentPattern =
            openmpt_module_get_current_pattern lib (engine s) (modulePtr (nodes s self));
          currentRow = openmpt_module_get_current_row lib (engine s) (modulePtr (nodes s self));
          queries = [GetCurrentPattern (modulePtr (nodes s self)),
                     GetCurrentRow (modulePtr (nodes s self))];
          r1 = (if currentPattern \<noteq> patternIndex (nodes s self)
                then fireEvent run ''onPatternChange'' Undefined s
                else \<lparr>state = s, compl = Normal, effects = []\<rparr>)
      in case compl r1 of
           Abrupt \<Rightarrow> r1\<lparr>effects := queries @ effects r1\<rparr>
         | Normal \<Rightarrow>
             (fireEvent run ''onRowChange'' (RowIndex currentRow) (state r1))
               \<lparr>effects := queries @ effects r1 @
                  effects (fireEvent run ''onRowChange'' (RowIndex currentRow) (state r1))\<rparr>)"

text \<open>\<^verbatim>\<open>processNode.onaudioprocess\<close> of \<^verbatim>\<open>src/unnamed/part_000\<close>.\<close>

definition onaudioprocess ::
  "('e, 's::zero) libopenmpt \<Rightarrow> ('e, 'h) callback \<Rightarrow> nat \<Rightarrow> 's list \<times> 's list \<Rightarrow>
   ('e, 'h) player \<Rightarrow> ('e, 'h, 's) rendered" where
  "onaudioprocess lib run self out s =
     (if modulePtr (nodes s self) = 0 then dead_session lib self out s
      else if paused (nodes s self) then paused_session out s
      else (case compl (position_events lib run self s) of
              Abrupt \<Rightarrow>
                \<lparr>state = state (position_events lib run self s), compl = Abrupt,
                 effects = effects (position_events lib run self s),
                 outputL = fst out, outputR = snd out\<rparr>
            | Normal \<Rightarrow>
                (render_frames lib run self out (state (position_events lib run self s)))
                  \<lparr>effects := effects (position_events lib run self s) @
                     effects (render_frames lib run self out
                       (state (position_events lib run self s)))\<rparr>))"

section \<open>The player\<close>

text \<open>
  \<^verbatim>\<open>stop\<close>: with a current node, disconnect it, clean it up and delete the reference.
\<close>

definition stop ::
  "('e, 's) libopenmpt \<Rightarrow> ('e, 'h) player \<Rightarrow> ('e, 'h) player \<times> 'h effect list" where
  "stop lib s =
     (case currentPlayingNode s of
        None \<Rightarrow> (s, [])
      | Some n \<Rightarrow>
          (case disconnect n s of (s1, e1) \<Rightarrow>
           case cleanup lib n s1 of (s2, e2) \<Rightarrow> (s2\<lparr>currentPlayingNode := None\<rparr>, e1 @ e2)))"

text \<open>
  \<^verbatim>\<open>unlock\<close> plays a silent one-frame buffer through the gain node; of it the player
  keeps \<^verbatim>\<open>touchLocked = false\<close>.
\<close>

definition unlock :: "('e, 'h) player \<Rightarrow> ('e, 'h) player" where
  "unlock s = s\<lparr>touchLocked := False\<rparr>"

text \<open>
  \<^verbatim>\<open>createLibopenmptNode\<close> of \<^verbatim>\<open>src/unnamed/part_000\<close>, in the order of its statements:
  the copy of the file into the heap, the left buffer, the module, its channel count,
  \<^verbatim>\<open>patternIndex = -1\<close>, \<^verbatim>\<open>paused = false\<close>, the right buffer. It ends with
  \<^verbatim>\<open>return processNode\<close> on every path: the result is never \<open>None\<close>.
\<close>

definition createLibopenmptNode ::
  "('e, 's) libopenmpt \<Rightarrow> int list \<Rightarrow> ('e, 'h) player \<Rightarrow>
   nat option \<times> ('e, 'h) player \<times> 'h effect list" where
  "createLibopenmptNode lib buffer s =
     (let processNode = next_node s;
          byteLength = int (length buffer);
          file = malloc lib (engine s) byteLength;
          ptrToFile = fst file;
          e1 = HEAPU8_set lib (snd file) buffer ptrToFile;
          left = malloc lib e1 (int maxFramesPerChunk * 4);
          handle = openmpt_module_create_from_memory lib (snd left) ptrToFile byteLength;
          channels = openmpt_module_get_num_channels lib (snd handle) (fst handle);
          right = malloc lib (snd handle) (int maxFramesPerChunk * 4)
      in (Some processNode,
          s\<lparr>nodes := (nodes s)(processNode :=
                \<lparr>modulePtr = fst handle, leftBufferPtr = fst left, rightBufferPtr = fst right,
                 nbChannels = channels, patternIndex = - 1, paused = False,
                 connected = False\<rparr>),
            next_node := Suc processNode,
            engine := snd right\<rparr>,
          [Malloc byteLength ptrToFile, HeapSet ptrToFile,
           Malloc (int maxFramesPerChunk * 4) (fst left),
           CreateFromMemory ptrToFile byteLength (fst handle),
           GetNumChannels (fst handle),
           Malloc (int maxFramesPerChunk * 4) (fst right)]))"

text \<open>
  \<^verbatim>\<open>play\<close> of \<^verbatim>\<open>src/unnamed/part_000\<close>. \<^verbatim>\<open>if (!processNode) return\<close> is the \<open>None\<close> case;
  \<^verbatim>\<open>this.config.repeatCount || 0\<close> is the count itself when it is not zero. \<open>Connect\<close> is
  \<^verbatim>\<open>processNode.connect(this.context)\<close>; the gain node behind it is always connected to
  the destination and is left out.
\<close>

definition play ::
  "('e, 's) libopenmpt \<Rightarrow> int list \<Rightarrow> ('e, 'h) player \<Rightarrow> ('e, 'h) player \<times> 'h effect list" where
  "play lib buffer s =
     (case stop lib (unlock s) of (s1, e1) \<Rightarrow>
      case createLibopenmptNode lib buffer s1 of
        (None, s2, e2) \<Rightarrow> (s2, e1 @ e2)
      | (Some processNode, s2, e2) \<Rightarrow>
          (let count = (if repeatCount s2 \<noteq> 0 then repeatCount s2 else 0);
               s3 = s2\<lparr>engine := openmpt_module_set_repeat_count lib (engine s2)
                                    (modulePtr (nodes s2 processNode)) count,
                       currentPlayingNode := Some processNode\<rparr>
           in case connect processNode s3 of (s4, e4) \<Rightarrow>
                (s4, e1 @ e2 @ [SetRepeatCount (modulePtr (nodes s2 processNode)) count] @ e4)))"

text \<open>
  The queries of \<^verbatim>\<open>src/unnamed/part_000\<close>. \<^verbatim>\<open>duration\<close>, \<^verbatim>\<open>position\<close> and \<^verbatim>\<open>metadata\<close> read
  \<^verbatim>\<open>this.currentPlayingNode!.modulePtr\<close>: the \<^verbatim>\<open>!\<close> is erased by the compiler, and the read
  of a property of \<^verbatim>\<open>undefined\<close> throws a TypeError. The other getters test
  \<^verbatim>\<open>this.currentPlayingNode && this.currentPlayingNode.modulePtr\<close> first.
\<close>

definition duration :: "('e, 's) libopenmpt \<Rightarrow> ('e, 'h) player \<Rightarrow> exn + real" where
  "duration lib s =
     (case currentPlayingNode s of
        None \<Rightarrow> Inl TypeError
      | Some n \<Rightarrow> Inr (openmpt_module_get_duration_seconds lib (engine s) (modulePtr (nodes s n))))"

definition position :: "('e, 's) libopenmpt \<Rightarrow> ('e, 'h) player \<Rightarrow> exn + real" where
  "position lib s =
     (case currentPlayingNode s of
        None \<Rightarrow> Inl TypeError
      | Some n \<Rightarrow> Inr (openmpt_module_get_position_seconds lib (engine s) (modulePtr (nodes s n))))"

definition guarded ::
  "('e \<Rightarrow> int \<Rightarrow> int) \<Rightarrow> ('e, 'h) player \<Rightarrow> int" where
  "guarded query s =
     (case currentPlayingNode s of
        None \<Rightarrow> 0
      | Some n \<Rightarrow> (if modulePtr (nodes s n) \<noteq> 0 then query (engine s) (modulePtr (nodes s n))
                   else 0))"

definition getCurrentSpeed :: "('e, 's) libopenmpt \<Rightarrow> ('e, 'h) player \<Rightarrow> int" where
  "getCurrentSpeed lib s = guarded (openmpt_module_get_current_speed lib) s"

definition getCurrentTempo :: "('e, 's) libopenmpt \<Rightarrow> ('e, 'h) player \<Rightarrow> int" where
  "getCurrentTempo lib s = guarded (openmpt_module_get_current_tempo lib) s"

definition getPattern :: "('e, 's) libopenmpt \<Rightarrow> ('e, 'h) player \<Rightarrow> int" where
  "getPattern lib s = guarded (openmpt_module_get_current_pattern lib) s"

definition getRow :: "('e, 's) libopenmpt \<Rightarrow> ('e, 'h) player \<Rightarrow> int" where
  "getRow lib s = guarded (openmpt_module_get_current_row lib) s"

text \<open>\<^verbatim>\<open>String.prototype.split\<close> at one character: the empty string gives one empty part.\<close>

fun split_on :: "char \<Rightarrow> string \<Rightarrow> string list" where
  "split_on c [] = [[]]"
| "split_on c (x # xs) =
     (if x = c then [] # split_on c xs
      else (case split_on c xs of [] \<Rightarrow> [[x]] | p # ps \<Rightarrow> (x # p) # ps))"

definition metadata_key ::
  "('e, 's) libopenmpt \<Rightarrow> int \<Rightarrow> string \<Rightarrow> (string \<rightharpoonup> string) \<times> 'e \<Rightarrow> (string \<rightharpoonup> string) \<times> 'e" where
  "metadata_key lib handle key acc =
     (let keyNameBuffer = malloc lib (snd acc) (int (length key) + 1);
          e1 = writeAsciiToMemory lib (snd keyNameBuffer) key (fst keyNameBuffer)
      in ((fst acc)(key \<mapsto> openmpt_module_get_metadata lib e1 handle (fst keyNameBuffer)),
          free lib e1 (fst keyNameBuffer)))"

definition metadata ::
  "('e, 's) libopenmpt \<Rightarrow> ('e, 'h) player \<Rightarrow> exn + (string \<rightharpoonup> string) \<times> ('e, 'h) player" where
  "metadata lib s =
     (case currentPlayingNode s of
        None \<Rightarrow> Inl TypeError
      | Some n \<Rightarrow>
          (let data = fold (metadata_key lib (modulePtr (nodes s n)))
                        (split_on CHR '';''
                           (openmpt_module_get_metadata_keys lib (engine s) (modulePtr (nodes s n))))
                        (Map.empty, engine s)
           in Inr (fst data, s\<lparr>engine := snd data\<rparr>)))"

section \<open>Reading the effects\<close>

text \<open>
  The events a call fired itself and the callbacks it invoked itself, in order; what a
  callback's body did is inside its \<open>Invoke\<close> entry and is not counted.
\<close>

fun fired :: "'h effect list \<Rightarrow> (string \<times> payload) list" where
  "fired [] = []"
| "fired (Fire name p # es) = (name, p) # fired es"
| "fired (e # es) = fired es"

fun invoked :: "'h effect list \<Rightarrow> ('h \<times> payload) list" where
  "invoked [] = []"
| "invoked (Invoke h p body # es) = (h, p) # invoked es"
| "invoked (e # es) = invoked es"

fun is_read :: "'h effect \<Rightarrow> bool" where
  "is_read (Read m n l r a) = True"
| "is_read e = False"

section \<open>Conditions and invariants of the proofs\<close>

text \<open>
  A loop of stores into one array: at each \<open>i\<close> of \<open>xs\<close>, in order, the value \<open>g i\<close> goes
  to the index \<open>f i\<close>. The loops of the callback store into the two channels side by
  side; each channel sees such a loop.
\<close>

definition stores :: "('i \<Rightarrow> int) \<Rightarrow> ('i \<Rightarrow> 's) \<Rightarrow> 'i list \<Rightarrow> 's list \<Rightarrow> 's list" where
  "stores f g xs l = fold (\<lambda>i l. ta_set l (f i) (g i)) xs l"

text \<open>
  Two runs of the loop that differ in nothing but the frames the loop has not reached yet.
\<close>

definition alike :: "('e, 'h, 's) chunk_loop \<Rightarrow> ('e, 'h, 's) chunk_loop \<Rightarrow> bool" where
  "alike v w \<longleftrightarrow>
     framesToRender w = framesToRender v \<and> framesRendered w = framesRendered v \<and>
     ended w = ended v \<and> error w = error v \<and> session w = session v \<and> calls w = calls v \<and>
     length (outL w) = length (outL v) \<and> length (outR w) = length (outR v) \<and>
     (\<forall>j. j < framesRendered v \<and> j < length (outL v) \<longrightarrow> outL w ! j = outL v ! j) \<and>
     (\<forall>j. j < framesRendered v \<and> j < length (outR v) \<longrightarrow> outR w ! j = outR v ! j)"

text \<open>
  The shortfall of every chunk read so far is zero in both channels: the chunk of the
  \<open>k\<close>-th call starts at frame \<open>k * maxFramesPerChunk\<close>, the call asked for \<open>n\<close> frames and
  got \<open>a\<close>.
\<close>

definition shortfall_zero :: "('e, 'h, 's::zero) chunk_loop \<Rightarrow> bool" where
  "shortfall_zero v \<longleftrightarrow>
     (\<forall>k j m n lp rp a.
        k < length (calls v) \<and> calls v ! k = Read m n lp rp a \<longrightarrow>
        n \<le> int maxFramesPerChunk \<and>
        (int (k * maxFramesPerChunk) \<le> int j \<and> int (k * maxFramesPerChunk) + a \<le> int j \<and>
         int j < int (k * maxFramesPerChunk) + n \<longrightarrow>
         outL v ! j = 0 \<and> outR v ! j = 0))"

text \<open>
  What every iteration keeps, for a buffer of \<open>N\<close> frames: the sizes of the channels, the
  frames rendered and to render adding up to \<open>N\<close>, the chunks starting at multiples of
  \<open>maxFramesPerChunk\<close>, and the zero shortfalls.
\<close>

definition chunk_inv :: "nat \<Rightarrow> ('e, 'h, 's::zero) chunk_loop \<Rightarrow> bool" where
  "chunk_inv N v \<longleftrightarrow>
     length (outL v) = N \<and> length (outR v) = N \<and> framesRendered v + framesToRender v = N \<and>
     (0 < framesToRender v \<longrightarrow> framesRendered v = length (calls v) * maxFramesPerChunk) \<and>
     shortfall_zero v"

text \<open>
  The frame \<open>j\<close> a callback has to leave in the channel whose scratch buffer is \<open>ptr\<close>, from
  the locals \<open>v\<close> it starts the loop with: the chunk of the frame is read after
  \<open>j div maxFramesPerChunk\<close> iterations; the frame is the sample of the engine when the read
  produced more than \<open>j mod maxFramesPerChunk\<close> frames, and zero otherwise.
\<close>

definition expected_frame ::
  "('e, 's::zero) libopenmpt \<Rightarrow> nat \<Rightarrow> (node \<Rightarrow> int) \<Rightarrow> ('e, 'h, 's) chunk_loop \<Rightarrow> nat \<Rightarrow> 's" where
  "expected_frame lib self ptr v j =
     (let w = (render_chunk lib self ^^ (j div maxFramesPerChunk)) v;
          i = j mod maxFramesPerChunk
      in if int i < fst (read_chunk lib self w)
         then HEAPF32_subarray lib (snd (read_chunk lib self w)) (ptr (nodes (session w) self))
                (fst (read_chunk lib self w)) i
         else 0)"

text \<open>An engine whose read returns a number of frames: never a negative number.\<close>

definition counts_frames :: "('e, 's) libopenmpt \<Rightarrow> bool" where
  "counts_frames lib \<longleftrightarrow>
     (\<forall>e m n lp rp. 0 \<le> fst (openmpt_module_read_float_stereo lib e m n lp rp))"

text \<open>
  What the loop keeps of its two flags, for a callback that found the player in the state
  \<open>s\<close>: \<open>ended\<close> says that a call returned no frame, \<open>error\<close> that one did while the handle
  was zero; the loop changes the engine and nothing else of the player, and calls nothing
  but the engine's read.
\<close>

definition flags_inv :: "('e, 'h) player \<Rightarrow> nat \<Rightarrow> ('e, 'h, 's) chunk_loop \<Rightarrow> bool" where
  "flags_inv s self w \<longleftrightarrow>
     (ended w \<longleftrightarrow> (\<exists>m n lp rp. Read m n lp rp 0 \<in> set (calls w))) \<and>
     (error w \<longleftrightarrow> ended w \<and> modulePtr (nodes s self) = 0) \<and>
     (\<exists>e. session w = s\<lparr>engine := e\<rparr>) \<and> list_all is_read (calls w)"

text \<open>
  The handlers registered under a name, in the order of registration; and handlers \<open>gs\<close>
  that, called with the payload \<open>p\<close>, leave the registrations \<open>hs\<close> of the array \<open>a\<close> in
  place (they may push more, take these away again, and assign what they like to the
  property \<^verbatim>\<open>handlers\<close>).
\<close>

definition matching :: "string \<Rightarrow> (string \<times> 'h) list \<Rightarrow> 'h list" where
  "matching eventName hs = map snd (filter (\<lambda>x. fst x = eventName) hs)"

definition keeps_entries ::
  "('e, 'h) callback \<Rightarrow> payload \<Rightarrow> 'h list \<Rightarrow> nat \<Rightarrow> (string \<times> 'h) list \<Rightarrow> bool" where
  "keeps_entries run p gs a hs \<longleftrightarrow>
     (\<forall>h\<in>set gs. \<forall>t. prefix hs (arrays t a) \<longrightarrow> prefix hs (arrays (state (run h p t)) a))"

text \<open>
  The dispatch in the words of the claim C9 as amended, to compare \<open>fireEvent\<close> with: the
  handlers of a list one after the other, each with the payload of the call and in the
  state the one before it left; when one throws, the ones after it are not invoked and the
  dispatch ends abruptly in the state that one left.
\<close>

primrec spec_dispatch ::
  "('e, 'h) callback \<Rightarrow> payload \<Rightarrow> 'h list \<Rightarrow> ('e, 'h) player \<Rightarrow> ('e, 'h) outcome" where
  "spec_dispatch run response [] s = \<lparr>state = s, compl = Normal, effects = []\<rparr>"
| "spec_dispatch run response (h # hs) s =
     (case compl (run h response s) of
        Abrupt \<Rightarrow>
          \<lparr>state = state (run h response s), compl = Abrupt,
           effects = [Invoke h response (effects (run h response s))]\<rparr>
      | Normal \<Rightarrow>
          (spec_dispatch run response hs (state (run h response s)))
          \<lparr>effects :=
             Invoke h response (effects (run h response s)) #
             effects (spec_dispatch run response hs (state (run h response s)))\<rparr>)"

section \<open>A small engine and some callbacks to run the player on\<close>

text \<open>
  An engine whose state is the number of frames the module has left and the next free
  address. It rejects an empty file, gives no frame for the handle \<open>0\<close>, and writes the
  sample \<open>1\<close> to the left and \<open>2\<close> to the right buffer.
\<close>

definition demo_engine :: "(nat \<times> int, real) libopenmpt" where
  "demo_engine =
     \<lparr>malloc = (\<lambda>e n. (snd e, (fst e, snd e + 8 * ((n + 7) div 8) + 8))),
      free = (\<lambda>e p. e),
      HEAPU8_set = (\<lambda>e bytes p. e),
      HEAPF32_subarray = (\<lambda>e p a i. if p = 0 then 0 else if p < 10000 then 1 else 2),
      openmpt_module_create_from_memory = (\<lambda>e p n. (if n = 0 then 0 else 7, e)),
      openmpt_module_destroy = (\<lambda>e m. e),
      openmpt_module_get_num_channels = (\<lambda>e m. if m = 0 then 0 else 4),
      openmpt_module_set_repeat_count = (\<lambda>e m c. e),
      openmpt_module_read_float_stereo =
        (\<lambda>e m n l r. if m = 0 then (0, e)
                      else (int (min (fst e) (nat n)), (fst e - min (fst e) (nat n), snd e))),
      openmpt_module_get_current_pattern = (\<lambda>e m. if m = 0 then 0 else 3),
      openmpt_module_get_current_row = (\<lambda>e m. if m = 0 then 0 else 5),
      openmpt_module_get_current_speed = (\<lambda>e m. if m = 0 then 0 else 6),
      openmpt_module_get_current_tempo = (\<lambda>e m. if m = 0 then 0 else 125),
      openmpt_module_get_duration_seconds = (\<lambda>e m. if m = 0 then 0 else 60),
      openmpt_module_get_position_seconds = (\<lambda>e m. 0),
      openmpt_module_get_metadata_keys = (\<lambda>e m. if m = 0 then [] else ''title''),
      openmpt_module_get_metadata = (\<lambda>e m k. if m = 0 then [] else ''demo''),
      writeAsciiToMemory = (\<lambda>e key p. e)\<rparr>"

datatype demo_handler = Quiet | Thrower | Stopper

text \<open>
  A callback that returns, one that throws, and one that calls \<^verbatim>\<open>player.stop()\<close> and
  returns.
\<close>

definition demo_run :: "(nat \<times> int, demo_handler) callback" where
  "demo_run h p s =
     (case h of
        Quiet \<Rightarrow> \<lparr>state = s, compl = Normal, effects = []\<rparr>
      | Thrower \<Rightarrow> \<lparr>state = s, compl = Abrupt, effects = []\<rparr>
      | Stopper \<Rightarrow> \<lparr>state = fst (stop demo_engine s), compl = Normal,
                    effects = snd (stop demo_engine s)\<rparr>)"

text \<open>Callbacks that all return and change nothing.\<close>

definition calm_run :: "(nat \<times> int, demo_handler) callback" where
  "calm_run h p s = \<lparr>state = s, compl = Normal, effects = []\<rparr>"

text \<open>
  Callbacks that all return, after they have assigned another array, the empty array \<open>1\<close>
  of the players below, to the property \<^verbatim>\<open>handlers\<close>.
\<close>

definition fresh_run :: "(nat \<times> int, demo_handler) callback" where
  "fresh_run h p s = \<lparr>state = s\<lparr>handlers := 1\<rparr>, compl = Normal, effects = []\<rparr>"

text \<open>
  A new player with the given callbacks, in the array \<open>0\<close>, and \<open>frames\<close> frames of module
  left.
\<close>

definition demo_player :: "(string \<times> demo_handler) list \<Rightarrow> nat \<Rightarrow> (nat \<times> int, demo_handler) player" where
  "demo_player hs frames =
     \<lparr>nodes = (\<lambda>n. \<lparr>modulePtr = 0, leftBufferPtr = 0, rightBufferPtr = 0, nbChannels = 0,
                    patternIndex = 0, paused = False, connected = False\<rparr>),
      next_node = 0, currentPlayingNode = None, handlers = 0, arrays = (\<lambda>a. [])(0 := hs),
      touchLocked = True, repeatCount = 0, engine = (frames, 1024)\<rparr>"

text \<open>The player after \<^verbatim>\<open>play\<close> of a three-byte file.\<close>

definition demo_playing :: "(string \<times> demo_handler) list \<Rightarrow> nat \<Rightarrow> (nat \<times> int, demo_handler) player" where
  "demo_playing hs frames = fst (play demo_engine [77, 46, 75] (demo_player hs frames))"

text \<open>A buffer of three frames, and a playing session that has been paused.\<close>

definition demo_out :: "real list \<times> real list" where
  "demo_out = ([9, 9, 9], [8, 8, 8])"

definition demo_paused :: "(nat \<times> int, demo_handler) player" where
  "demo_paused = pause 0 (demo_playing [(''onRowChange'', Thrower)] 2)"

text \<open>The player after \<^verbatim>\<open>play\<close> and \<^verbatim>\<open>stop\<close>: the node of the session has lost its handle.\<close>

definition demo_stopped :: "(string \<times> demo_handler) list \<Rightarrow> nat \<Rightarrow> (nat \<times> int, demo_handler) player" where
  "demo_stopped hs frames = fst (stop demo_engine (demo_playing hs frames))"

section \<open>Cleanup\<close>

lemma nodes_upd_node: "nodes (upd_node self f s) = (nodes s)(self := f (nodes s self))"
  by (simp add: upd_node_def)

lemma cleanup_pointers:
  "modulePtr (nodes (fst (cleanup lib self s)) self) = 0 \<and>
   leftBufferPtr (nodes (fst (cleanup lib self s)) self) = 0 \<and>
   rightBufferPtr (nodes (fst (cleanup lib self s)) self) = 0"
  by (simp add: cleanup_def release_module_def release_left_def release_right_def
      nodes_upd_node split: prod.splits)

lemma cleanup_released:
  "modulePtr (nodes s self) = 0 \<Longrightarrow> leftBufferPtr (nodes s self) = 0 \<Longrightarrow>
   rightBufferPtr (nodes s self) = 0 \<Longrightarrow> cleanup lib self s = (s, [])"
  by (simp add: cleanup_def release_module_def release_left_def release_right_def)

text \<open>
  C8. From any state of the session, a call of \<open>cleanup\<close> leaves the three pointers zero,
  and a second call right after it makes no call of the engine (no destroy, no free) and
  changes nothing.
\<close>

theorem cleanup_idempotent:
  "modulePtr (nodes (fst (cleanup lib self s)) self) = 0 \<and>
   leftBufferPtr (nodes (fst (cleanup lib self s)) self) = 0 \<and>
   rightBufferPtr (nodes (fst (cleanup lib self s)) self) = 0 \<and>
   cleanup lib self (fst (cleanup lib self s)) = (fst (cleanup lib self s), [])"
  using cleanup_pointers [of lib self s] by (simp add: cleanup_released)

section \<open>Stores into the output buffer\<close>

lemma length_ta_set [simp]: "length (ta_set xs i v) = length xs"
  by (simp add: ta_set_def)

lemma length_stores [simp]: "length (stores f g xs l) = length l"
  by (induction xs arbitrary: l) (simp_all add: stores_def)

lemma stores_Nil [simp]: "stores f g [] l = l"
  by (simp add: stores_def)

lemma stores_Cons [simp]: "stores f g (x # xs) l = stores f g xs (ta_set l (f x) (g x))"
  by (simp add: stores_def)

lemma fold_pair_stores:
  "fold (\<lambda>i (l, r). (ta_set l (f i) (g i), ta_set r (f i) (h i))) xs (l, r) =
   (stores f g xs l, stores f h xs r)"
  by (induction xs arbitrary: l r) simp_all

lemma nth_ta_set:
  "j < length xs \<Longrightarrow> ta_set xs i v ! j = (if i = int j then v else xs ! j)"
  by (auto simp: ta_set_def nth_list_update)

lemma stores_untouched:
  "int j \<notin> f ` set xs \<Longrightarrow> j < length l \<Longrightarrow> stores f g xs l ! j = l ! j"
  by (induction xs arbitrary: l) (auto simp: nth_ta_set)

lemma stores_agree:
  "length l1 = length l2 \<Longrightarrow> j < length l1 \<Longrightarrow> int j \<in> f ` set xs \<or> l1 ! j = l2 ! j \<Longrightarrow>
   stores f g xs l1 ! j = stores f g xs l2 ! j"
proof (induction xs arbitrary: l1 l2)
  case Nil
  then show ?case by simp
next
  case (Cons x xs)
  have "int j \<in> f ` set xs \<or> ta_set l1 (f x) (g x) ! j = ta_set l2 (f x) (g x) ! j"
    using Cons.prems by (auto simp: nth_ta_set)
  with Cons.prems Cons.IH [of "ta_set l1 (f x) (g x)" "ta_set l2 (f x) (g x)"]
  show ?case by simp
qed

lemma stores_const:
  "\<forall>i \<in> set xs. g i = c \<Longrightarrow> int j \<in> f ` set xs \<Longrightarrow> j < length l \<Longrightarrow>
   stores f g xs l ! j = c"
proof (induction xs arbitrary: l)
  case Nil
  then show ?case by simp
next
  case (Cons x xs)
  show ?case
  proof (cases "int j \<in> f ` set xs")
    case True
    with Cons show ?thesis by simp
  next
    case False
    with Cons.prems have "f x = int j" by auto
    with False Cons.prems show ?thesis
      by (simp add: stores_untouched nth_ta_set)
  qed
qed

lemma stores_last:
  "distinct (map f xs) \<Longrightarrow> i \<in> set xs \<Longrightarrow> f i = int j \<Longrightarrow> j < length l \<Longrightarrow>
   stores f g xs l ! j = g i"
proof (induction xs arbitrary: l)
  case Nil
  then show ?case by simp
next
  case (Cons x xs)
  show ?case
  proof (cases "i = x")
    case True
    with Cons.prems have "int j \<notin> f ` set xs" by auto
    with True Cons.prems show ?thesis by (simp add: stores_untouched nth_ta_set)
  next
    case False
    with Cons show ?thesis by simp
  qed
qed

lemma silence_eq:
  "silence n (l, r) = (stores int (\<lambda>i. 0) [0..<n] l, stores int (\<lambda>i. 0) [0..<n] r)"
  by (simp add: silence_def fold_pair_stores)

lemma stores_zero_all:
  "stores int (\<lambda>i. 0) [0..<length l] l = replicate (length l) 0"
  by (rule nth_equalityI) (simp_all add: stores_const)

lemma silence_replicate:
  "length r = length l \<Longrightarrow>
   silence (length l) (l, r) = (replicate (length l) 0, replicate (length l) 0)"
  using stores_zero_all [of l] stores_zero_all [of r] by (simp add: silence_eq)

lemma copy_chunk_eq:
  "copy_chunk ra rb fr a (l, r) =
   (stores (\<lambda>i. int fr + int i) ra [0..<nat a] l, stores (\<lambda>i. int fr + int i) rb [0..<nat a] r)"
  by (simp add: copy_chunk_def fold_pair_stores)

lemma zero_chunk_eq:
  "zero_chunk fr a n (l, r) =
   (stores (\<lambda>i. int fr + i) (\<lambda>i. 0) [a..int n - 1] l,
    stores (\<lambda>i. int fr + i) (\<lambda>i. 0) [a..int n - 1] r)"
  by (simp add: zero_chunk_def fold_pair_stores)


section \<open>The chunk loop\<close>

declare render_loop.simps [simp del]

lemma render_loop_done: "framesToRender v = 0 \<Longrightarrow> render_loop lib self v = v"
  by (simp add: render_loop.simps)

lemma render_loop_step:
  "0 < framesToRender v \<Longrightarrow> render_loop lib self v = render_loop lib self (render_chunk lib self v)"
  by (subst render_loop.simps) simp

lemma render_loop_invariant:
  assumes "P v"
    and "\<And>w. P w \<Longrightarrow> 0 < framesToRender w \<Longrightarrow> P (render_chunk lib self w)"
  shows "P (render_loop lib self v)"
  using assms
proof (induction lib self v rule: render_loop.induct)
  case (1 lib self v)
  show ?case
  proof (cases "0 < framesToRender v")
    case True
    then show ?thesis
      using "1.IH" "1.prems" by (simp add: render_loop_step)
  next
    case False
    then show ?thesis using "1.prems" by (simp add: render_loop_done)
  qed
qed

lemma render_loop_relation:
  assumes "R v w"
    and "\<And>v w. R v w \<Longrightarrow> framesToRender w = framesToRender v"
    and "\<And>v w. R v w \<Longrightarrow> 0 < framesToRender v \<Longrightarrow>
           R (render_chunk lib self v) (render_chunk lib self w)"
  shows "R (render_loop lib self v) (render_loop lib self w)"
  using assms
proof (induction lib self v arbitrary: w rule: render_loop.induct)
  case (1 lib self v)
  have same: "framesToRender w = framesToRender v" using "1.prems" by blast
  show ?case
  proof (cases "0 < framesToRender v")
    case True
    have "R (render_chunk lib self v) (render_chunk lib self w)"
      using "1.prems" True by blast
    then have "R (render_loop lib self (render_chunk lib self v))
                 (render_loop lib self (render_chunk lib self w))"
      using "1.IH" [OF True] "1.prems"(2,3) by blast
    then show ?thesis using True same by (simp add: render_loop_step)
  next
    case False
    then show ?thesis using "1.prems"(1) same by (simp add: render_loop_done)
  qed
qed

lemma render_loop_exhausts: "framesToRender (render_loop lib self v) = 0"
proof (induction lib self v rule: render_loop.induct)
  case (1 lib self v)
  then show ?case
    by (cases "0 < framesToRender v") (simp_all add: render_loop_step render_loop_done)
qed

lemma framesToRender_render_chunk [simp]:
  "framesToRender (render_chunk lib self v) = framesToRender v - framesPerChunk v"
  by (simp add: render_chunk_def Let_def)

lemma framesRendered_render_chunk [simp]:
  "framesRendered (render_chunk lib self v) = framesRendered v + framesPerChunk v"
  by (simp add: render_chunk_def Let_def)

lemma calls_render_chunk [simp]:
  "calls (render_chunk lib self v) =
   calls v @
   [Read (modulePtr (nodes (session v) self)) (int (framesPerChunk v))
      (leftBufferPtr (nodes (session v) self)) (rightBufferPtr (nodes (session v) self))
      (fst (read_chunk lib self v))]"
  by (simp add: render_chunk_def Let_def)

lemma session_render_chunk [simp]:
  "session (render_chunk lib self v) = (session v)\<lparr>engine := snd (read_chunk lib self v)\<rparr>"
  by (simp add: render_chunk_def Let_def)

lemma ended_render_chunk [simp]:
  "ended (render_chunk lib self v) = (fst (read_chunk lib self v) = 0 \<or> ended v)"
  by (simp add: render_chunk_def Let_def)

lemma error_render_chunk [simp]:
  "error (render_chunk lib self v) =
   (if fst (read_chunk lib self v) = 0 then modulePtr (nodes (session v) self) = 0 else error v)"
  by (simp add: render_chunk_def Let_def)

lemma outL_render_chunk:
  "outL (render_chunk lib self v) =
   stores (\<lambda>i. int (framesRendered v) + i) (\<lambda>i. 0)
     [fst (read_chunk lib self v)..int (framesPerChunk v) - 1]
     (stores (\<lambda>i. int (framesRendered v) + int i)
        (HEAPF32_subarray lib (snd (read_chunk lib self v))
           (leftBufferPtr (nodes (session v) self)) (fst (read_chunk lib self v)))
        [0..<nat (fst (read_chunk lib self v))] (outL v))"
  by (simp add: render_chunk_def Let_def copy_chunk_eq zero_chunk_eq)

lemma outR_render_chunk:
  "outR (render_chunk lib self v) =
   stores (\<lambda>i. int (framesRendered v) + i) (\<lambda>i. 0)
     [fst (read_chunk lib self v)..int (framesPerChunk v) - 1]
     (stores (\<lambda>i. int (framesRendered v) + int i)
        (HEAPF32_subarray lib (snd (read_chunk lib self v))
           (rightBufferPtr (nodes (session v) self)) (fst (read_chunk lib self v)))
        [0..<nat (fst (read_chunk lib self v))] (outR v))"
  by (simp add: render_chunk_def Let_def copy_chunk_eq zero_chunk_eq)

lemma framesPerChunk_pos: "0 < framesToRender v \<Longrightarrow> 0 < framesPerChunk v"
  by (simp add: framesPerChunk_def maxFramesPerChunk_def)

lemma framesPerChunk_le: "framesPerChunk v \<le> framesToRender v"
  by (simp add: framesPerChunk_def)

lemma framesPerChunk_max: "framesPerChunk v \<le> maxFramesPerChunk"
  by (simp add: framesPerChunk_def)

lemma length_outL_render_chunk [simp]: "length (outL (render_chunk lib self v)) = length (outL v)"
  by (simp add: outL_render_chunk)

lemma length_outR_render_chunk [simp]: "length (outR (render_chunk lib self v)) = length (outR v)"
  by (simp add: outR_render_chunk)

lemma render_loop_lengths:
  "length (outL (render_loop lib self v)) = length (outL v) \<and>
   length (outR (render_loop lib self v)) = length (outR v)"
  by (rule render_loop_invariant
        [where P = "\<lambda>w. length (outL w) = length (outL v) \<and> length (outR w) = length (outR v)"])
     simp_all

lemma rendered_step:
  "framesRendered (render_chunk lib self w) + framesToRender (render_chunk lib self w) =
   framesRendered w + framesToRender w"
  using framesPerChunk_le [of w] by simp

lemma render_loop_rendered:
  "framesRendered (render_loop lib self v) = framesRendered v + framesToRender v"
proof -
  have "framesRendered (render_loop lib self v) + framesToRender (render_loop lib self v) =
        framesRendered v + framesToRender v"
    by (rule render_loop_invariant
          [where P = "\<lambda>w. framesRendered w + framesToRender w =
                           framesRendered v + framesToRender v"])
       (simp_all only: rendered_step)
  then show ?thesis by (simp add: render_loop_exhausts)
qed

lemma chunks_left:
  "0 < framesToRender v \<Longrightarrow>
   Suc ((framesToRender v - framesPerChunk v + maxFramesPerChunk - 1) div maxFramesPerChunk) =
   (framesToRender v + maxFramesPerChunk - 1) div maxFramesPerChunk"
  unfolding framesPerChunk_def maxFramesPerChunk_def by (cases "framesToRender v \<le> 4096") auto

lemma count_step:
  "0 < framesToRender w \<Longrightarrow>
   length (calls (render_chunk lib self w)) +
   (framesToRender (render_chunk lib self w) + maxFramesPerChunk - 1) div maxFramesPerChunk =
   length (calls w) + (framesToRender w + maxFramesPerChunk - 1) div maxFramesPerChunk"
  using chunks_left [of w] by simp

lemma render_loop_count:
  "length (calls (render_loop lib self v)) =
   length (calls v) + (framesToRender v + maxFramesPerChunk - 1) div maxFramesPerChunk"
proof -
  have "length (calls (render_loop lib self v)) +
        (framesToRender (render_loop lib self v) + maxFramesPerChunk - 1) div maxFramesPerChunk =
        length (calls v) + (framesToRender v + maxFramesPerChunk - 1) div maxFramesPerChunk"
    by (rule render_loop_invariant
          [where P = "\<lambda>w. length (calls w) +
                 (framesToRender w + maxFramesPerChunk - 1) div maxFramesPerChunk =
               length (calls v) + (framesToRender v + maxFramesPerChunk - 1) div maxFramesPerChunk"])
       (simp_all only: count_step)
  then show ?thesis by (simp add: render_loop_exhausts maxFramesPerChunk_def)
qed

lemma stores_keeps:
  "\<forall>i \<in> set xs. g i = c \<Longrightarrow> j < length l \<Longrightarrow> l ! j = c \<Longrightarrow> stores f g xs l ! j = c"
  by (induction xs arbitrary: l) (auto simp: nth_ta_set)

lemma chunk_stores_agree:
  assumes len: "length l1 = length l2" and j: "j < length l1" "j < fr + n"
    and old: "\<forall>j'. j' < fr \<and> j' < length l1 \<longrightarrow> l1 ! j' = l2 ! j'"
  shows "stores (\<lambda>i. int fr + i) (\<lambda>i. c) [a..int n - 1]
           (stores (\<lambda>i. int fr + int i) g [0..<nat a] l1) ! j =
         stores (\<lambda>i. int fr + i) (\<lambda>i. c) [a..int n - 1]
           (stores (\<lambda>i. int fr + int i) g [0..<nat a] l2) ! j"
proof (cases "int j \<in> (\<lambda>i. int fr + i) ` set [a..int n - 1]")
  case True
  then show ?thesis using len j by (intro stores_agree) simp_all
next
  case False
  have inner: "stores (\<lambda>i. int fr + int i) g [0..<nat a] l1 ! j =
               stores (\<lambda>i. int fr + int i) g [0..<nat a] l2 ! j"
  proof (cases "j < fr")
    case True
    with old j have "l1 ! j = l2 ! j" by simp
    then show ?thesis using len j by (intro stores_agree) simp_all
  next
    case ge: False
    have "int j - int fr \<notin> set [a..int n - 1]"
    proof
      assume "int j - int fr \<in> set [a..int n - 1]"
      then have "int fr + (int j - int fr) \<in> (\<lambda>i. int fr + i) ` set [a..int n - 1]"
        by (rule imageI)
      with False show False by simp
    qed
    with ge j have "int j - int fr < a" by auto
    with ge have "j - fr \<in> set [0..<nat a]" by auto
    then have "int fr + int (j - fr) \<in> (\<lambda>i. int fr + int i) ` set [0..<nat a]"
      by (rule imageI)
    with ge have "int j \<in> (\<lambda>i. int fr + int i) ` set [0..<nat a]" by simp
    then show ?thesis using len j by (intro stores_agree) simp_all
  qed
  then show ?thesis using len j by (intro stores_agree) simp_all
qed

lemma read_chunk_alike: "alike v w \<Longrightarrow> read_chunk lib self w = read_chunk lib self v"
  by (simp add: alike_def read_chunk_def framesPerChunk_def)

lemma framesPerChunk_alike: "alike v w \<Longrightarrow> framesPerChunk w = framesPerChunk v"
  by (simp add: alike_def framesPerChunk_def)

lemma alike_step:
  assumes "alike v w"
  shows "alike (render_chunk lib self v) (render_chunk lib self w)"
proof -
  note rc = read_chunk_alike [OF assms, of lib self] and fp = framesPerChunk_alike [OF assms]
  have same: "framesToRender w = framesToRender v" "framesRendered w = framesRendered v"
    "ended w = ended v" "error w = error v" "session w = session v" "calls w = calls v"
    "length (outL w) = length (outL v)" "length (outR w) = length (outR v)"
    using assms by (simp_all add: alike_def)
  have oldL: "\<forall>j'. j' < framesRendered v \<and> j' < length (outL w) \<longrightarrow> outL w ! j' = outL v ! j'"
    and oldR: "\<forall>j'. j' < framesRendered v \<and> j' < length (outR w) \<longrightarrow> outR w ! j' = outR v ! j'"
    using assms by (simp_all add: alike_def)
  have L: "outL (render_chunk lib self w) ! j = outL (render_chunk lib self v) ! j"
    if "j < framesRendered v + framesPerChunk v" "j < length (outL v)" for j
    unfolding outL_render_chunk rc fp same
    using that same oldL by (intro chunk_stores_agree) simp_all
  have R: "outR (render_chunk lib self w) ! j = outR (render_chunk lib self v) ! j"
    if "j < framesRendered v + framesPerChunk v" "j < length (outR v)" for j
    unfolding outR_render_chunk rc fp same
    using that same oldR by (intro chunk_stores_agree) simp_all
  show ?thesis
    unfolding alike_def using L R same rc fp by simp
qed

lemma alike_loop:
  "alike v w \<Longrightarrow> alike (render_loop lib self v) (render_loop lib self w)"
  by (rule render_loop_relation [where R = alike]) (auto simp: alike_step, simp add: alike_def)

lemma alike_start:
  "length l' = length l \<Longrightarrow> length r' = length r \<Longrightarrow>
   alike (start_loop (l, r) s) (start_loop (l', r') s)"
  by (simp add: alike_def start_loop_def)

lemma render_loop_independent:
  assumes "length l = n" "length r = n" "length l' = n" "length r' = n"
  shows "outL (render_loop lib self (start_loop (l', r') s)) =
         outL (render_loop lib self (start_loop (l, r) s)) \<and>
         outR (render_loop lib self (start_loop (l', r') s)) =
         outR (render_loop lib self (start_loop (l, r) s)) \<and>
         session (render_loop lib self (start_loop (l', r') s)) =
         session (render_loop lib self (start_loop (l, r) s)) \<and>
         ended (render_loop lib self (start_loop (l', r') s)) =
         ended (render_loop lib self (start_loop (l, r) s)) \<and>
         error (render_loop lib self (start_loop (l', r') s)) =
         error (render_loop lib self (start_loop (l, r) s)) \<and>
         calls (render_loop lib self (start_loop (l', r') s)) =
         calls (render_loop lib self (start_loop (l, r) s))"
proof -
  let ?v = "render_loop lib self (start_loop (l, r) s)"
  let ?w = "render_loop lib self (start_loop (l', r') s)"
  have a: "alike ?v ?w" using assms by (intro alike_loop alike_start) simp_all
  have fr: "framesRendered ?v = n"
    using assms by (simp add: render_loop_rendered start_loop_def)
  have len: "length (outL ?v) = n" "length (outR ?v) = n"
    using assms render_loop_lengths [of lib self "start_loop (l, r) s"]
    by (simp_all add: start_loop_def)
  have "outL ?w = outL ?v"
    using a fr len by (intro nth_equalityI) (simp_all add: alike_def)
  moreover have "outR ?w = outR ?v"
    using a fr len by (intro nth_equalityI) (simp_all add: alike_def)
  ultimately show ?thesis using a by (simp add: alike_def)
qed

lemma chunk_stores_old:
  assumes "j < fr" "j < length l" "l ! j = c"
  shows "stores (\<lambda>i. int fr + i) (\<lambda>i. c) [a..int n - 1]
           (stores (\<lambda>i. int fr + int i) g [0..<nat a] l) ! j = c"
proof -
  have "int j \<notin> (\<lambda>i. int fr + int i) ` set [0..<nat a]" using assms by auto
  then have "stores (\<lambda>i. int fr + int i) g [0..<nat a] l ! j = c"
    using assms by (simp add: stores_untouched)
  then show ?thesis using assms by (subst stores_keeps [where c = c]) simp_all
qed

lemma chunk_stores_shortfall:
  assumes "fr \<le> j" "int fr + a \<le> int j" "j < fr + n" "j < length l"
  shows "stores (\<lambda>i. int fr + i) (\<lambda>i. c) [a..int n - 1]
           (stores (\<lambda>i. int fr + int i) g [0..<nat a] l) ! j = c"
proof -
  have "int j - int fr \<in> set [a..int n - 1]" using assms by auto
  then have "int fr + (int j - int fr) \<in> (\<lambda>i. int fr + i) ` set [a..int n - 1]"
    by (rule imageI)
  then have "int j \<in> (\<lambda>i. int fr + i) ` set [a..int n - 1]" by simp
  then show ?thesis using assms by (intro stores_const) simp_all
qed

lemma chunk_inv_step:
  assumes inv: "chunk_inv N v" and pos: "0 < framesToRender v"
  shows "chunk_inv N (render_chunk lib self v)"
proof -
  let ?v' = "render_chunk lib self v"
  let ?M = maxFramesPerChunk
  have len: "length (outL v) = N" "length (outR v) = N"
    and sum: "framesRendered v + framesToRender v = N"
    and fr: "framesRendered v = length (calls v) * ?M"
    and z: "shortfall_zero v"
    using inv pos by (simp_all add: chunk_inv_def)
  have fits: "framesRendered v + framesPerChunk v \<le> N"
    using sum framesPerChunk_le [of v] by simp
  have next_fr: "0 < framesToRender ?v' \<longrightarrow> framesRendered ?v' = length (calls ?v') * ?M"
    using fr by (auto simp: framesPerChunk_def)
  have "shortfall_zero ?v'"
    unfolding shortfall_zero_def
  proof (intro allI impI)
    fix k j m n lp rp a
    assume k: "k < length (calls ?v') \<and> calls ?v' ! k = Read m n lp rp a"
    show "n \<le> int ?M \<and>
          (int (k * ?M) \<le> int j \<and> int (k * ?M) + a \<le> int j \<and> int j < int (k * ?M) + n \<longrightarrow>
           outL ?v' ! j = 0 \<and> outR ?v' ! j = 0)"
    proof (cases "k < length (calls v)")
      case True
      with k have old: "calls v ! k = Read m n lp rp a" by (simp add: nth_append)
      with True z have n: "n \<le> int ?M" unfolding shortfall_zero_def by blast
      have "outL ?v' ! j = 0 \<and> outR ?v' ! j = 0"
        if r: "int (k * ?M) \<le> int j \<and> int (k * ?M) + a \<le> int j \<and> int j < int (k * ?M) + n"
      proof -
        from True old z r have zero: "outL v ! j = 0" "outR v ! j = 0"
          unfolding shortfall_zero_def by blast+
        have "int j < int (k * ?M) + int ?M" using r n by simp
        then have "j < Suc k * ?M" by (metis of_nat_add of_nat_less_iff mult_Suc add.commute)
        also have "\<dots> \<le> length (calls v) * ?M" using True by (intro mult_le_mono1) simp
        finally have j: "j < framesRendered v" using fr by simp
        then have "j < N" using sum by simp
        with j zero len show ?thesis
          by (simp add: outL_render_chunk outR_render_chunk chunk_stores_old)
      qed
      with n show ?thesis by blast
    next
      case False
      with k have eq: "k = length (calls v)" by simp
      with k have new: "n = int (framesPerChunk v)" "a = fst (read_chunk lib self v)"
        by simp_all
      have n: "n \<le> int ?M" using new framesPerChunk_max [of v] by simp
      have "outL ?v' ! j = 0 \<and> outR ?v' ! j = 0"
        if r: "int (k * ?M) \<le> int j \<and> int (k * ?M) + a \<le> int j \<and> int j < int (k * ?M) + n"
      proof -
        from r have "int (k * ?M) \<le> int j" by blast
        then have r1: "framesRendered v \<le> j" unfolding eq fr by (simp only: of_nat_le_iff)
        from r have r2: "int (framesRendered v) + fst (read_chunk lib self v) \<le> int j"
          unfolding eq fr new by blast
        from r have "int j < int (k * ?M) + int (framesPerChunk v)" unfolding new by blast
        then have "int j < int (k * ?M + framesPerChunk v)" by (simp only: of_nat_add)
        then have r3: "j < framesRendered v + framesPerChunk v"
          unfolding eq fr by (simp only: of_nat_less_iff)
        have "j < N" using r3 fits by simp
        with r1 r2 r3 show ?thesis using len
          by (simp add: outL_render_chunk outR_render_chunk chunk_stores_shortfall)
      qed
      with n show ?thesis by blast
    qed
  qed
  with len sum next_fr show ?thesis
    using rendered_step [of lib self v] by (simp add: chunk_inv_def del: framesToRender_render_chunk framesRendered_render_chunk)
qed

lemma chunk_inv_loop: "chunk_inv N v \<Longrightarrow> chunk_inv N (render_loop lib self v)"
  by (rule render_loop_invariant [where P = "chunk_inv N"]) (simp_all add: chunk_inv_step)

lemma chunk_inv_start: "length r = length l \<Longrightarrow> chunk_inv (length l) (start_loop (l, r) s)"
  by (simp add: chunk_inv_def start_loop_def shortfall_zero_def)

lemma render_loop_shortfall:
  "length r = length l \<Longrightarrow> shortfall_zero (render_loop lib self (start_loop (l, r) s))"
proof -
  assume "length r = length l"
  then have "chunk_inv (length l) (render_loop lib self (start_loop (l, r) s))"
    by (intro chunk_inv_loop chunk_inv_start)
  then show ?thesis by (simp add: chunk_inv_def)
qed

section \<open>The paused callback and the chunk loop\<close>

lemma paused_session_silent:
  "length l = N \<Longrightarrow> length r = N \<Longrightarrow>
   paused_session (l, r) s =
   \<lparr>state = s, compl = Normal, effects = [], outputL = replicate N 0, outputR = replicate N 0\<rparr>"
  using silence_replicate [of r l] by (simp add: paused_session_def)

text \<open>
  C7. With a handle that is not zero and the paused flag set, the callback of either file
  leaves both channels of an \<open>N\<close>-frame buffer zero, calls nothing (no engine call, no
  event, no disconnect, no cleanup), returns, and leaves the whole state of the player and
  the session as it was.
\<close>

theorem paused_callback_is_silent:
  assumes "modulePtr (nodes s self) \<noteq> 0" and "paused (nodes s self)"
    and "length l = N" and "length r = N"
  shows "onaudioprocess lib run self (l, r) s =
           \<lparr>state = s, compl = Normal, effects = [],
            outputL = replicate N 0, outputR = replicate N 0\<rparr> \<and>
         onaudioprocess_index lib run self (l, r) s =
           \<lparr>state = s, compl = Normal, effects = [],
            outputL = replicate N 0, outputR = replicate N 0\<rparr>"
  using assms by (simp add: onaudioprocess_def onaudioprocess_index_def paused_session_silent)

lemma demo_playing_node:
  "nodes (demo_playing hs frames) 0 =
   \<lparr>modulePtr = 7, leftBufferPtr = 1040, rightBufferPtr = 17432,
     nbChannels = 4, patternIndex = - 1, paused = False, connected = True\<rparr>"
  by (simp add: demo_playing_def demo_player_def play_def unlock_def stop_def
      createLibopenmptNode_def connect_def upd_node_def demo_engine_def maxFramesPerChunk_def Let_def)

lemma demo_paused_node:
  "nodes demo_paused 0 =
   \<lparr>modulePtr = 7, leftBufferPtr = 1040, rightBufferPtr = 17432,
     nbChannels = 4, patternIndex = - 1, paused = True, connected = True\<rparr>"
  by (simp add: demo_paused_def pause_def upd_node_def demo_playing_node)

theorem paused_callback_is_silent_witness:
  "modulePtr (nodes demo_paused 0) \<noteq> 0 \<and> paused (nodes demo_paused 0) \<and>
   onaudioprocess demo_engine demo_run 0 demo_out demo_paused =
     \<lparr>state = demo_paused, compl = Normal, effects = [],
      outputL = [0, 0, 0], outputR = [0, 0, 0]\<rparr> \<and>
   onaudioprocess_index demo_engine demo_run 0 demo_out demo_paused =
     \<lparr>state = demo_paused, compl = Normal, effects = [],
      outputL = [0, 0, 0], outputR = [0, 0, 0]\<rparr>"
  using paused_callback_is_silent
    [of demo_paused 0 "fst demo_out" 3 "snd demo_out" demo_engine demo_run]
  by (simp add: demo_paused_node demo_out_def numeral_3_eq_3)

text \<open>
  C6. The chunk loop is a total function: from the locals of a callback on a buffer of
  \<open>N\<close> frames it ends with no frame left to render and \<open>N\<close> frames rendered, after
  \<open>\<lceil>N / maxFramesPerChunk\<rceil>\<close> calls of the engine, whatever the engine returns. One
  iteration asks for \<open>min framesToRender maxFramesPerChunk\<close> frames, which is positive,
  and moves both counters by that size. Where the \<open>k\<close>-th call asked for \<open>n\<close> frames and
  returned \<open>a\<close>, the frames of its chunk from \<open>a\<close> on are zero in both channels at the end.
\<close>

theorem chunk_loop_terminates:
  "framesToRender (render_loop lib self (start_loop (l, r) s)) = 0 \<and>
   framesRendered (render_loop lib self (start_loop (l, r) s)) = length l \<and>
   length (calls (render_loop lib self (start_loop (l, r) s))) =
     (length l + maxFramesPerChunk - 1) div maxFramesPerChunk \<and>
   (0 < framesToRender v \<longrightarrow>
      framesPerChunk v = min (framesToRender v) maxFramesPerChunk \<and> 0 < framesPerChunk v \<and>
      framesToRender (render_chunk lib self v) = framesToRender v - framesPerChunk v \<and>
      framesRendered (render_chunk lib self v) = framesRendered v + framesPerChunk v) \<and>
   (length r = length l \<longrightarrow>
      (\<forall>k j m n lp rp a.
         k < length (calls (render_loop lib self (start_loop (l, r) s))) \<and>
         calls (render_loop lib self (start_loop (l, r) s)) ! k = Read m n lp rp a \<and>
         int (k * maxFramesPerChunk) \<le> int j \<and> int (k * maxFramesPerChunk) + a \<le> int j \<and>
         int j < int (k * maxFramesPerChunk) + n \<longrightarrow>
         outL (render_loop lib self (start_loop (l, r) s)) ! j = 0 \<and>
         outR (render_loop lib self (start_loop (l, r) s)) ! j = 0))"
proof (intro conjI impI)
  show "framesToRender (render_loop lib self (start_loop (l, r) s)) = 0"
    by (rule render_loop_exhausts)
  show "framesRendered (render_loop lib self (start_loop (l, r) s)) = length l"
    by (simp add: render_loop_rendered start_loop_def)
  show "length (calls (render_loop lib self (start_loop (l, r) s))) =
        (length l + maxFramesPerChunk - 1) div maxFramesPerChunk"
    by (simp add: render_loop_count start_loop_def)
  show "framesPerChunk v = min (framesToRender v) maxFramesPerChunk"
    by (rule framesPerChunk_def)
  show "0 < framesPerChunk v" if "0 < framesToRender v"
    using that by (rule framesPerChunk_pos)
  show "framesToRender (render_chunk lib self v) = framesToRender v - framesPerChunk v"
    by simp
  show "framesRendered (render_chunk lib self v) = framesRendered v + framesPerChunk v"
    by simp
  show "\<forall>k j m n lp rp a.
         k < length (calls (render_loop lib self (start_loop (l, r) s))) \<and>
         calls (render_loop lib self (start_loop (l, r) s)) ! k = Read m n lp rp a \<and>
         int (k * maxFramesPerChunk) \<le> int j \<and> int (k * maxFramesPerChunk) + a \<le> int j \<and>
         int j < int (k * maxFramesPerChunk) + n \<longrightarrow>
         outL (render_loop lib self (start_loop (l, r) s)) ! j = 0 \<and>
         outR (render_loop lib self (start_loop (l, r) s)) ! j = 0"
    if "length r = length l"
    using render_loop_shortfall [OF that, of lib self s] unfolding shortfall_zero_def by blast
qed

lemma demo_playing_eq:
  "demo_playing hs frames =
   \<lparr>nodes = (\<lambda>n. \<lparr>modulePtr = 0, leftBufferPtr = 0, rightBufferPtr = 0, nbChannels = 0,
                    patternIndex = 0, paused = False, connected = False\<rparr>)
             (0 := \<lparr>modulePtr = 7, leftBufferPtr = 1040, rightBufferPtr = 17432,
                    nbChannels = 4, patternIndex = - 1, paused = False, connected = True\<rparr>),
      next_node = 1, currentPlayingNode = Some 0, handlers = 0, arrays = (\<lambda>a. [])(0 := hs),
      touchLocked = False, repeatCount = 0, engine = (frames, 33824)\<rparr>"
  by (simp add: demo_playing_def demo_player_def play_def unlock_def stop_def
      createLibopenmptNode_def connect_def upd_node_def demo_engine_def maxFramesPerChunk_def Let_def)

lemma demo_read:
  "openmpt_module_read_float_stereo demo_engine e m n l r =
   (if m = 0 then (0, e)
    else (int (min (fst e) (nat n)), (fst e - min (fst e) (nat n), snd e)))"
  by (simp add: demo_engine_def)

lemma demo_heap:
  "HEAPF32_subarray demo_engine e p a i = (if p = 0 then 0 else if p < 10000 then 1 else 2)"
  by (simp add: demo_engine_def)

lemmas run_chunk_loop =
  render_loop_step render_loop_done start_loop_def demo_out_def framesPerChunk_def
  maxFramesPerChunk_def outL_render_chunk outR_render_chunk read_chunk_def
  demo_read demo_heap upto.simps upt_rec ta_set_def

lemma demo_short_read:
  "calls (render_loop demo_engine 0 (start_loop demo_out (demo_playing [] 2))) =
     [Read 7 3 1040 17432 2] \<and>
   outL (render_loop demo_engine 0 (start_loop demo_out (demo_playing [] 2))) = [1, 1, 0] \<and>
   outR (render_loop demo_engine 0 (start_loop demo_out (demo_playing [] 2))) = [2, 2, 0]"
  by (simp add: run_chunk_loop demo_playing_eq)

theorem chunk_loop_terminates_witness:
  "framesToRender (render_loop demo_engine 0
      (start_loop demo_out (demo_playing [] 2))) = 0 \<and>
   framesRendered (render_loop demo_engine 0
      (start_loop demo_out (demo_playing [] 2))) = 3 \<and>
   length (calls (render_loop demo_engine 0
      (start_loop demo_out (demo_playing [] 2)))) = 1 \<and>
   0 < framesToRender (start_loop demo_out (demo_playing [] 2)) \<and>
   framesPerChunk (start_loop demo_out (demo_playing [] 2)) = 3 \<and>
   framesToRender (render_chunk demo_engine 0
      (start_loop demo_out (demo_playing [] 2))) = 0 \<and>
   calls (render_loop demo_engine 0
      (start_loop demo_out (demo_playing [] 2))) ! 0 = Read 7 3 1040 17432 2 \<and>
   outL (render_loop demo_engine 0
      (start_loop demo_out (demo_playing [] 2))) ! 2 = 0 \<and>
   outR (render_loop demo_engine 0
      (start_loop demo_out (demo_playing [] 2))) ! 2 = 0"
  using chunk_loop_terminates
    [of demo_engine 0 "fst demo_out" "snd demo_out" "demo_playing [] 2"
        "start_loop demo_out (demo_playing [] 2)"]
    demo_short_read
  by (simp add: start_loop_def maxFramesPerChunk_def framesPerChunk_def demo_out_def)

section \<open>Dispatch of an event\<close>

lemma fired_append [simp]: "fired (xs @ ys) = fired xs @ fired ys"
  by (induction xs rule: fired.induct) simp_all

lemma invoked_append [simp]: "invoked (xs @ ys) = invoked xs @ invoked ys"
  by (induction xs rule: invoked.induct) simp_all

lemma matching_Cons:
  "matching name (x # xs) = (if fst x = name then snd x # matching name xs else matching name xs)"
  by (simp add: matching_def)

lemma fired_forEach [simp]: "fired (effects (forEach_handlers run name p a n k s)) = []"
  by (induction n arbitrary: k s) (simp_all split: completion.splits)

text \<open>
  Over an array that keeps its registrations, the iteration by index is the dispatch to
  the handlers registered under the name.
\<close>

lemma forEach_handlers_spec:
  assumes "keeps_entries run p (matching name hs) a hs" and "prefix hs (arrays s a)"
    and "k + n = length hs"
  shows "forEach_handlers run name p a n k s =
         spec_dispatch run p (matching name (drop k hs)) s"
  using assms(2,3)
proof (induction n arbitrary: k s)
  case 0
  then show ?case by (simp add: matching_def)
next
  case (Suc n)
  from Suc.prems have k: "k < length hs" by simp
  with Suc.prems have at: "arrays s a ! k = hs ! k" "k < length (arrays s a)"
    by (auto simp: prefix_def nth_append)
  from k have drop: "drop k hs = hs ! k # drop (Suc k) hs"
    by (simp add: Cons_nth_drop_Suc)
  from Suc.prems have rest: "Suc k + n = length hs" by simp
  show ?case
  proof (cases "fst (hs ! k) = name")
    case False
    with at Suc.IH [OF Suc.prems(1) rest] drop show ?thesis
      by (simp add: matching_Cons)
  next
    case True
    let ?r = "run (snd (hs ! k)) p s"
    from k have "hs ! k \<in> set hs" by simp
    with True have "snd (hs ! k) \<in> set (matching name hs)"
      by (force simp: matching_def)
    with assms(1) Suc.prems(1) have pre: "prefix hs (arrays (state ?r) a)"
      unfolding keeps_entries_def by blast
    from Suc.IH [OF pre rest] True at drop show ?thesis
      by (simp add: matching_Cons split: completion.splits)
  qed
qed

lemma fireEvent_spec:
  assumes "keeps_entries run p (matching name (arrays s (handlers s))) (handlers s)
             (arrays s (handlers s))"
  shows "fireEvent run name p s =
         (spec_dispatch run p (matching name (arrays s (handlers s))) s)
         \<lparr>effects := Fire name p #
            effects (spec_dispatch run p (matching name (arrays s (handlers s))) s)\<rparr>"
proof (cases "arrays s (handlers s) = []")
  case True
  then show ?thesis by (simp add: fireEvent_def matching_def)
next
  case False
  from forEach_handlers_spec [OF assms, where k = 0 and n = "length (arrays s (handlers s))"]
  have "forEach_handlers run name p (handlers s) (length (arrays s (handlers s))) 0 s =
        spec_dispatch run p (matching name (arrays s (handlers s))) s"
    by simp
  with False show ?thesis by (simp add: fireEvent_def)
qed

lemma spec_dispatch_served:
  "prefix (map fst (invoked (effects (spec_dispatch run p hs s)))) hs \<and>
   map snd (invoked (effects (spec_dispatch run p hs s))) =
     replicate (length (invoked (effects (spec_dispatch run p hs s)))) p \<and>
   length (effects (spec_dispatch run p hs s)) =
     length (invoked (effects (spec_dispatch run p hs s))) \<and>
   (compl (spec_dispatch run p hs s) = Normal \<longrightarrow>
      map fst (invoked (effects (spec_dispatch run p hs s))) = hs) \<and>
   (compl (spec_dispatch run p hs s) = Abrupt \<longrightarrow>
      invoked (effects (spec_dispatch run p hs s)) \<noteq> [] \<and>
      (\<exists>t. compl (run (fst (last (invoked (effects (spec_dispatch run p hs s))))) p t) =
            Abrupt))"
proof (induction hs arbitrary: s)
  case Nil
  then show ?case by simp
next
  case (Cons h hs)
  show ?case
  proof (cases "compl (run h p s)")
    case Abrupt
    then show ?thesis by auto
  next
    case Normal
    with Cons [of "state (run h p s)"] show ?thesis by simp
  qed
qed

lemma spec_dispatch_invoked:
  "compl (spec_dispatch run p hs s) = Normal \<Longrightarrow>
   invoked (effects (spec_dispatch run p hs s)) = map (\<lambda>g. (g, p)) hs"
proof (induction hs arbitrary: s)
  case Nil
  then show ?case by simp
next
  case (Cons h hs)
  show ?case
  proof (cases "compl (run h p s)")
    case Abrupt
    with Cons.prems show ?thesis by simp
  next
    case Normal
    with Cons.prems Cons.IH [of "state (run h p s)"] show ?thesis by simp
  qed
qed

lemma spec_dispatch_append:
  assumes "compl (spec_dispatch run p pre s) = Normal"
    and "compl (run h p (state (spec_dispatch run p pre s))) = Abrupt"
  shows "compl (spec_dispatch run p (pre @ h # post) s) = Abrupt \<and>
         state (spec_dispatch run p (pre @ h # post) s) =
           state (run h p (state (spec_dispatch run p pre s))) \<and>
         effects (spec_dispatch run p (pre @ h # post) s) =
           effects (spec_dispatch run p pre s) @
           [Invoke h p (effects (run h p (state (spec_dispatch run p pre s))))]"
  using assms
proof (induction pre arbitrary: s)
  case Nil
  then show ?case by simp
next
  case (Cons g pre)
  show ?case
  proof (cases "compl (run g p s)")
    case Abrupt
    with Cons.prems show ?thesis by simp
  next
    case Normal
    with Cons.prems Cons.IH [of "state (run g p s)"] show ?thesis by simp
  qed
qed

lemma spec_dispatch_stops:
  assumes "compl (spec_dispatch run p pre s) = Normal"
    and "compl (run h p (state (spec_dispatch run p pre s))) = Abrupt"
  shows "compl (spec_dispatch run p (pre @ h # post) s) = Abrupt \<and>
         state (spec_dispatch run p (pre @ h # post) s) =
           state (run h p (state (spec_dispatch run p pre s))) \<and>
         effects (spec_dispatch run p (pre @ h # post) s) =
           effects (spec_dispatch run p pre s) @
           [Invoke h p (effects (run h p (state (spec_dispatch run p pre s))))] \<and>
         invoked (effects (spec_dispatch run p (pre @ h # post) s)) =
           map (\<lambda>g. (g, p)) (pre @ [h])"
  using spec_dispatch_append [OF assms, of post] spec_dispatch_invoked [OF assms(1)]
  by simp

lemma spec_dispatch_returns:
  "\<forall>g\<in>set hs. \<forall>t. compl (run g p t) = Normal \<Longrightarrow> compl (spec_dispatch run p hs s) = Normal"
  by (induction hs arbitrary: s) simp_all

lemma spec_dispatch_thrown:
  "compl (spec_dispatch run p hs s) = Abrupt \<Longrightarrow>
   \<exists>pre h post. hs = pre @ h # post \<and> compl (spec_dispatch run p pre s) = Normal \<and>
     compl (run h p (state (spec_dispatch run p pre s))) = Abrupt"
proof (induction hs arbitrary: s)
  case Nil
  then show ?case by simp
next
  case (Cons g hs)
  show ?case
  proof (cases "compl (run g p s)")
    case Abrupt
    then have "g # hs = [] @ g # hs \<and> compl (spec_dispatch run p [] s) = Normal \<and>
               compl (run g p (state (spec_dispatch run p [] s))) = Abrupt"
      by simp
    then show ?thesis by blast
  next
    case Normal
    with Cons.prems have "compl (spec_dispatch run p hs (state (run g p s))) = Abrupt" by simp
    from Cons.IH [OF this] obtain pre h post where
      split: "hs = pre @ h # post"
      and before: "compl (spec_dispatch run p pre (state (run g p s))) = Normal"
      and thrown: "compl (run h p (state (spec_dispatch run p pre (state (run g p s))))) = Abrupt"
      by blast
    from split before thrown Normal
    have "g # hs = (g # pre) @ h # post \<and> compl (spec_dispatch run p (g # pre) s) = Normal \<and>
          compl (run h p (state (spec_dispatch run p (g # pre) s))) = Abrupt"
      by simp
    then show ?thesis by blast
  qed
qed

lemma handlers_upd_node [simp]: "handlers (upd_node self f s) = handlers s"
  by (simp add: upd_node_def)

lemma arrays_upd_node [simp]: "arrays (upd_node self f s) = arrays s"
  by (simp add: upd_node_def)

lemma handlers_cleanup [simp]: "handlers (fst (cleanup lib self s)) = handlers s"
  by (simp add: cleanup_def release_module_def release_left_def release_right_def
      split: prod.splits)

lemma arrays_cleanup [simp]: "arrays (fst (cleanup lib self s)) = arrays s"
  by (simp add: cleanup_def release_module_def release_left_def release_right_def
      split: prod.splits)

lemma stop_current:
  "currentPlayingNode s = Some n \<Longrightarrow>
   stop lib s =
   ((fst (cleanup lib n (fst (disconnect n s))))\<lparr>currentPlayingNode := None\<rparr>,
    snd (disconnect n s) @ snd (cleanup lib n (fst (disconnect n s))))"
  by (simp add: stop_def case_prod_beta)

lemma stop_idle: "currentPlayingNode s = None \<Longrightarrow> stop lib s = (s, [])"
  by (simp add: stop_def)

lemma handlers_stop [simp]: "handlers (fst (stop lib s)) = handlers s"
  by (cases "currentPlayingNode s") (simp_all add: stop_idle stop_current disconnect_def)

lemma arrays_stop [simp]: "arrays (fst (stop lib s)) = arrays s"
  by (cases "currentPlayingNode s") (simp_all add: stop_idle stop_current disconnect_def)

lemma arrays_demo_run: "\<forall>h q t. arrays (state (demo_run h q t)) = arrays t"
  by (simp add: demo_run_def split: demo_handler.splits)

lemma keeps_demo_run:
  "\<forall>h\<in>set gs. \<forall>t. prefix hs (arrays t a) \<longrightarrow> prefix hs (arrays (state (demo_run h q t)) a)"
  by (simp add: arrays_demo_run)

text \<open>
  C9, as the code has it. \<open>addHandler\<close> puts a registration at the end of the array of the
  player. Stated for a dispatch whose handlers, called with its payload, leave in place
  what the array held when \<open>fireEvent\<close> was called (they may push more registrations, and
  assign another array to the property):
  \<open>fireEvent\<close> is the dispatch to the handlers registered under the name, in the order of
  registration, a handler once for each of its registrations and each with the payload of
  the call, that stops at the first exception. So it invokes nothing but these handlers;
  when it returns, it has invoked all of them; when no callback throws, it returns. When
  the handlers before a registration have returned and the handler of that registration
  throws, \<open>fireEvent\<close> ends abruptly in the state that handler left, it is the last one
  invoked, and no handler registered after it is invoked; and \<open>fireEvent\<close> ends abruptly in
  no other case.
\<close>

theorem fireEvent_in_registration_order:
  assumes "\<forall>h\<in>set (map snd (filter (\<lambda>x. fst x = name) (arrays s (handlers s)))). \<forall>t.
             prefix (arrays s (handlers s)) (arrays t (handlers s)) \<longrightarrow>
             prefix (arrays s (handlers s)) (arrays (state (run h p t)) (handlers s))"
  shows "fireEvent run name p s =
           (spec_dispatch run p (map snd (filter (\<lambda>x. fst x = name) (arrays s (handlers s)))) s)
           \<lparr>effects := Fire name p #
              effects (spec_dispatch run p
                (map snd (filter (\<lambda>x. fst x = name) (arrays s (handlers s)))) s)\<rparr> \<and>
         fired (effects (fireEvent run name p s)) = [(name, p)] \<and>
         length (effects (fireEvent run name p s)) =
           Suc (length (invoked (effects (fireEvent run name p s)))) \<and>
         prefix (map fst (invoked (effects (fireEvent run name p s))))
           (map snd (filter (\<lambda>x. fst x = name) (arrays s (handlers s)))) \<and>
         map snd (invoked (effects (fireEvent run name p s))) =
           replicate (length (invoked (effects (fireEvent run name p s)))) p \<and>
         (compl (fireEvent run name p s) = Normal \<longrightarrow>
            map fst (invoked (effects (fireEvent run name p s))) =
            map snd (filter (\<lambda>x. fst x = name) (arrays s (handlers s)))) \<and>
         (compl (fireEvent run name p s) = Abrupt \<longrightarrow>
            invoked (effects (fireEvent run name p s)) \<noteq> [] \<and>
            (\<exists>t. compl (run (fst (last (invoked (effects (fireEvent run name p s))))) p t) =
                  Abrupt)) \<and>
         ((\<forall>h q t. compl (run h q t) = Normal) \<longrightarrow> compl (fireEvent run name p s) = Normal) \<and>
         (\<forall>pre h post.
            map snd (filter (\<lambda>x. fst x = name) (arrays s (handlers s))) = pre @ h # post \<and>
            compl (spec_dispatch run p pre s) = Normal \<and>
            compl (run h p (state (spec_dispatch run p pre s))) = Abrupt \<longrightarrow>
            compl (fireEvent run name p s) = Abrupt \<and>
            state (fireEvent run name p s) = state (run h p (state (spec_dispatch run p pre s))) \<and>
            effects (fireEvent run name p s) =
              Fire name p # effects (spec_dispatch run p pre s) @
              [Invoke h p (effects (run h p (state (spec_dispatch run p pre s))))] \<and>
            invoked (effects (fireEvent run name p s)) = map (\<lambda>g. (g, p)) (pre @ [h])) \<and>
         (\<forall>pre h post.
            map snd (filter (\<lambda>x. fst x = name) (arrays s (handlers s))) = pre @ h # post \<and>
            (\<forall>g\<in>set pre. \<forall>t. compl (run g p t) = Normal) \<and>
            (\<forall>t. compl (run h p t) = Abrupt) \<longrightarrow>
            compl (fireEvent run name p s) = Abrupt \<and>
            invoked (effects (fireEvent run name p s)) = map (\<lambda>g. (g, p)) (pre @ [h])) \<and>
         (compl (fireEvent run name p s) = Abrupt \<longrightarrow>
            (\<exists>pre h post.
               map snd (filter (\<lambda>x. fst x = name) (arrays s (handlers s))) = pre @ h # post \<and>
               compl (spec_dispatch run p pre s) = Normal \<and>
               compl (run h p (state (spec_dispatch run p pre s))) = Abrupt)) \<and>
         handlers (addHandler name' h' s) = handlers s \<and>
         arrays (addHandler name' h' s) (handlers s) = arrays s (handlers s) @ [(name', h')]"
proof -
  let ?hs = "map snd (filter (\<lambda>x. fst x = name) (arrays s (handlers s)))"
  let ?d = "spec_dispatch run p ?hs s"
  have "keeps_entries run p (matching name (arrays s (handlers s))) (handlers s)
          (arrays s (handlers s))"
    using assms by (simp add: keeps_entries_def matching_def)
  from fireEvent_spec [OF this]
  have eq: "fireEvent run name p s = ?d\<lparr>effects := Fire name p # effects ?d\<rparr>"
    by (simp add: matching_def)
  have fields: "compl (fireEvent run name p s) = compl ?d"
    "state (fireEvent run name p s) = state ?d"
    "effects (fireEvent run name p s) = Fire name p # effects ?d"
    "invoked (effects (fireEvent run name p s)) = invoked (effects ?d)"
    by (simp_all add: eq)
  from spec_dispatch_served [of run p ?hs s]
  have served:
    "prefix (map fst (invoked (effects ?d))) ?hs"
    "map snd (invoked (effects ?d)) = replicate (length (invoked (effects ?d))) p"
    "length (effects ?d) = length (invoked (effects ?d))"
    "compl ?d = Normal \<longrightarrow> map fst (invoked (effects ?d)) = ?hs"
    "compl ?d = Abrupt \<longrightarrow> invoked (effects ?d) \<noteq> [] \<and>
       (\<exists>t. compl (run (fst (last (invoked (effects ?d)))) p t) = Abrupt)"
    by simp_all
  have never: "compl ?d = Normal" if "\<forall>h q t. compl (run h q t) = Normal"
    using that by (intro spec_dispatch_returns) simp
  have stops: "compl ?d = Abrupt \<and>
      state ?d = state (run h p (state (spec_dispatch run p pre s))) \<and>
      effects ?d = effects (spec_dispatch run p pre s) @
        [Invoke h p (effects (run h p (state (spec_dispatch run p pre s))))] \<and>
      invoked (effects ?d) = map (\<lambda>g. (g, p)) (pre @ [h])"
    if "?hs = pre @ h # post" "compl (spec_dispatch run p pre s) = Normal"
      "compl (run h p (state (spec_dispatch run p pre s))) = Abrupt" for pre h post
    unfolding that(1) using that(2,3) by (rule spec_dispatch_stops)
  have always: "compl ?d = Abrupt \<and> invoked (effects ?d) = map (\<lambda>g. (g, p)) (pre @ [h])"
    if "?hs = pre @ h # post" "\<forall>g\<in>set pre. \<forall>t. compl (run g p t) = Normal"
      "\<forall>t. compl (run h p t) = Abrupt" for pre h post
  proof -
    from that(2) have before: "compl (spec_dispatch run p pre s) = Normal"
      by (rule spec_dispatch_returns [where run = run and p = p and hs = pre])
    from that(3) have "compl (run h p (state (spec_dispatch run p pre s))) = Abrupt"
      by simp
    from stops [OF that(1) before this] show ?thesis by blast
  qed
  have thrown: "\<exists>pre h post. ?hs = pre @ h # post \<and>
      compl (spec_dispatch run p pre s) = Normal \<and>
      compl (run h p (state (spec_dispatch run p pre s))) = Abrupt"
    if "compl ?d = Abrupt"
    using that by (rule spec_dispatch_thrown)
  let ?f = "fireEvent run name p s"
  show ?thesis
  proof (intro conjI allI impI)
    show "?f = ?d\<lparr>effects := Fire name p # effects ?d\<rparr>" by (rule eq)
    show "fired (effects ?f) = [(name, p)]" by (simp add: fireEvent_def)
    show "length (effects ?f) = Suc (length (invoked (effects ?f)))"
      using served(3) by (simp add: fields)
    show "prefix (map fst (invoked (effects ?f))) ?hs"
      using served(1) by (simp add: fields)
    show "map snd (invoked (effects ?f)) = replicate (length (invoked (effects ?f))) p"
      using served(2) by (simp add: fields)
    show "map fst (invoked (effects ?f)) = ?hs" if "compl ?f = Normal"
      using served(4) that by (simp add: fields)
    show "invoked (effects ?f) \<noteq> []" if "compl ?f = Abrupt"
      using served(5) that by (simp add: fields)
    show "\<exists>t. compl (run (fst (last (invoked (effects ?f)))) p t) = Abrupt"
      if "compl ?f = Abrupt"
      using served(5) that by (simp add: fields)
    show "compl ?f = Normal" if "\<forall>h q t. compl (run h q t) = Normal"
      using never [OF that] by (simp add: fields)
    show "handlers (addHandler name' h' s) = handlers s" by (simp add: addHandler_def)
    show "arrays (addHandler name' h' s) (handlers s) = arrays s (handlers s) @ [(name', h')]"
      by (simp add: addHandler_def)
    show "\<exists>pre h post. ?hs = pre @ h # post \<and>
        compl (spec_dispatch run p pre s) = Normal \<and>
        compl (run h p (state (spec_dispatch run p pre s))) = Abrupt"
      if "compl ?f = Abrupt"
    proof (rule thrown)
      from that show "compl ?d = Abrupt" by (simp add: fields)
    qed
  next
    fix pre h post
    assume a: "?hs = pre @ h # post \<and> compl (spec_dispatch run p pre s) = Normal \<and>
      compl (run h p (state (spec_dispatch run p pre s))) = Abrupt"
    then have c: "compl ?d = Abrupt"
      and st: "state ?d = state (run h p (state (spec_dispatch run p pre s)))"
      and ef: "effects ?d = effects (spec_dispatch run p pre s) @
        [Invoke h p (effects (run h p (state (spec_dispatch run p pre s))))]"
      and iv: "invoked (effects ?d) = map (\<lambda>g. (g, p)) (pre @ [h])"
      using stops [of pre h post] by blast+
    show "compl ?f = Abrupt" unfolding fields(1) by (rule c)
    show "state ?f = state (run h p (state (spec_dispatch run p pre s)))"
      unfolding fields(2) by (rule st)
    show "effects ?f =
        Fire name p # effects (spec_dispatch run p pre s) @
        [Invoke h p (effects (run h p (state (spec_dispatch run p pre s))))]"
      unfolding fields(3) using ef by simp
    show "invoked (effects ?f) = map (\<lambda>g. (g, p)) (pre @ [h])"
      unfolding fields(4) by (rule iv)
  next
    fix pre h post
    assume a: "?hs = pre @ h # post \<and> (\<forall>g\<in>set pre. \<forall>t. compl (run g p t) = Normal) \<and>
      (\<forall>t. compl (run h p t) = Abrupt)"
    then have c: "compl ?d = Abrupt"
      and iv: "invoked (effects ?d) = map (\<lambda>g. (g, p)) (pre @ [h])"
      using always [of pre h post] by blast+
    show "compl ?f = Abrupt" unfolding fields(1) by (rule c)
    show "invoked (effects ?f) = map (\<lambda>g. (g, p)) (pre @ [h])"
      unfolding fields(4) by (rule iv)
  qed
qed

lemma demo_run_simps:
  "demo_run Quiet p s = \<lparr>state = s, compl = Normal, effects = []\<rparr>"
  "demo_run Thrower p s = \<lparr>state = s, compl = Abrupt, effects = []\<rparr>"
  "demo_run Stopper p s =
     \<lparr>state = fst (stop demo_engine s), compl = Normal, effects = snd (stop demo_engine s)\<rparr>"
  by (simp_all add: demo_run_def)

lemma demo_dispatch:
  "compl (fireEvent demo_run ''onEnded'' Undefined
     (demo_player [(''onEnded'', Quiet), (''onError'', Thrower), (''onEnded'', Stopper),
                   (''onEnded'', Quiet)] 0)) = Normal \<and>
   invoked (effects (fireEvent demo_run ''onEnded'' Undefined
     (demo_player [(''onEnded'', Quiet), (''onError'', Thrower), (''onEnded'', Stopper),
                   (''onEnded'', Quiet)] 0))) =
     [(Quiet, Undefined), (Stopper, Undefined), (Quiet, Undefined)]"
  by (simp add: fireEvent_def demo_player_def demo_run_simps stop_idle)

lemma demo_dispatch_thrown:
  "compl (fireEvent demo_run ''onEnded'' Undefined
     (demo_player [(''onEnded'', Quiet), (''onEnded'', Thrower), (''onEnded'', Quiet)] 0)) =
     Abrupt \<and>
   invoked (effects (fireEvent demo_run ''onEnded'' Undefined
     (demo_player [(''onEnded'', Quiet), (''onEnded'', Thrower), (''onEnded'', Quiet)] 0))) =
     [(Quiet, Undefined), (Thrower, Undefined)]"
  by (simp add: fireEvent_def demo_player_def demo_run_simps)

lemma calm_run_returns: "\<forall>h q t. compl (calm_run h q t) = Normal"
  by (simp add: calm_run_def)

lemma arrays_calm_run: "\<forall>h q t. arrays (state (calm_run h q t)) = arrays t"
  by (simp add: calm_run_def)

lemma keeps_calm_run:
  "\<forall>h\<in>set gs. \<forall>t. prefix hs (arrays t a) \<longrightarrow> prefix hs (arrays (state (calm_run h q t)) a)"
  by (simp add: arrays_calm_run)

lemma fresh_run_returns: "\<forall>h q t. compl (fresh_run h q t) = Normal"
  by (simp add: fresh_run_def)

lemma arrays_fresh_run: "\<forall>h q t. arrays (state (fresh_run h q t)) = arrays t"
  by (simp add: fresh_run_def)

lemma keeps_fresh_run:
  "\<forall>h\<in>set gs. \<forall>t. prefix hs (arrays t a) \<longrightarrow> prefix hs (arrays (state (fresh_run h q t)) a)"
  by (simp add: arrays_fresh_run)

lemma demo_dispatch_fresh:
  "handlers (state (fireEvent fresh_run ''onEnded'' Undefined
     (demo_player [(''onEnded'', Quiet), (''onEnded'', Stopper)] 0))) = 1 \<and>
   arrays (state (fireEvent fresh_run ''onEnded'' Undefined
     (demo_player [(''onEnded'', Quiet), (''onEnded'', Stopper)] 0))) 1 = []"
  by (simp add: fireEvent_def demo_player_def fresh_run_def)

theorem fireEvent_in_registration_order_witness:
  "(\<forall>h q t. arrays (state (demo_run h q t)) = arrays t) \<and>
   (\<forall>h q t. arrays (state (calm_run h q t)) = arrays t) \<and>
   (\<forall>h q t. compl (calm_run h q t) = Normal) \<and>
   compl (fireEvent calm_run ''onEnded'' Undefined
     (demo_player [(''onEnded'', Thrower), (''onEnded'', Quiet)] 0)) = Normal \<and>
   compl (fireEvent demo_run ''onEnded'' Undefined
     (demo_player [(''onEnded'', Quiet), (''onError'', Thrower), (''onEnded'', Stopper),
                   (''onEnded'', Quiet)] 0)) = Normal \<and>
   map fst (invoked (effects (fireEvent demo_run ''onEnded'' Undefined
     (demo_player [(''onEnded'', Quiet), (''onError'', Thrower), (''onEnded'', Stopper),
                   (''onEnded'', Quiet)] 0)))) = [Quiet, Stopper, Quiet] \<and>
   (\<forall>h q t. arrays (state (fresh_run h q t)) = arrays t) \<and>
   (\<forall>h q t. compl (fresh_run h q t) = Normal) \<and>
   handlers (state (fireEvent fresh_run ''onEnded'' Undefined
     (demo_player [(''onEnded'', Quiet), (''onEnded'', Stopper)] 0))) = 1 \<and>
   arrays (state (fireEvent fresh_run ''onEnded'' Undefined
     (demo_player [(''onEnded'', Quiet), (''onEnded'', Stopper)] 0))) 1 = [] \<and>
   map fst (invoked (effects (fireEvent fresh_run ''onEnded'' Undefined
     (demo_player [(''onEnded'', Quiet), (''onEnded'', Stopper)] 0)))) = [Quiet, Stopper] \<and>
   map snd (filter (\<lambda>x. fst x = ''onEnded'')
     (arrays (demo_player [(''onEnded'', Quiet), (''onEnded'', Thrower), (''onEnded'', Quiet)] 0)
        (handlers (demo_player [(''onEnded'', Quiet), (''onEnded'', Thrower),
                                (''onEnded'', Quiet)] 0)))) = [Quiet] @ Thrower # [Quiet] \<and>
   compl (spec_dispatch demo_run Undefined [Quiet]
     (demo_player [(''onEnded'', Quiet), (''onEnded'', Thrower), (''onEnded'', Quiet)] 0)) =
     Normal \<and>
   compl (demo_run Thrower Undefined (state (spec_dispatch demo_run Undefined [Quiet]
     (demo_player [(''onEnded'', Quiet), (''onEnded'', Thrower), (''onEnded'', Quiet)] 0)))) =
     Abrupt \<and>
   compl (fireEvent demo_run ''onEnded'' Undefined
     (demo_player [(''onEnded'', Quiet), (''onEnded'', Thrower), (''onEnded'', Quiet)] 0)) =
     Abrupt \<and>
   effects (fireEvent demo_run ''onEnded'' Undefined
     (demo_player [(''onEnded'', Quiet), (''onEnded'', Thrower), (''onEnded'', Quiet)] 0)) =
     [Fire ''onEnded'' Undefined, Invoke Quiet Undefined [], Invoke Thrower Undefined []] \<and>
   invoked (effects (fireEvent demo_run ''onEnded'' Undefined
     (demo_player [(''onEnded'', Quiet), (''onEnded'', Thrower), (''onEnded'', Quiet)] 0))) =
     [(Quiet, Undefined), (Thrower, Undefined)]"
proof -
  let ?t = "demo_player [(''onEnded'', Quiet), (''onEnded'', Thrower), (''onEnded'', Quiet)] 0"
  let ?u = "demo_player [(''onEnded'', Quiet), (''onError'', Thrower), (''onEnded'', Stopper),
                         (''onEnded'', Quiet)] 0"
  let ?v = "demo_player [(''onEnded'', Thrower), (''onEnded'', Quiet)] 0"
  have split: "map snd (filter (\<lambda>x. fst x = ''onEnded'') (arrays ?t (handlers ?t))) =
               [Quiet] @ Thrower # [Quiet]"
    by (simp add: demo_player_def)
  have before: "compl (spec_dispatch demo_run Undefined [Quiet] ?t) = Normal"
    by (simp add: demo_run_simps)
  have thrown: "compl (demo_run Thrower Undefined
                  (state (spec_dispatch demo_run Undefined [Quiet] ?t))) = Abrupt"
    by (simp add: demo_run_simps)
  have quiet: "\<forall>g\<in>set [Quiet]. \<forall>t. compl (demo_run g Undefined t) = Normal"
    by (simp add: demo_run_simps)
  have loud: "\<forall>t. compl (demo_run Thrower Undefined t) = Abrupt"
    by (simp add: demo_run_simps)
  have calm: "compl (fireEvent calm_run ''onEnded'' Undefined ?v) = Normal"
    using fireEvent_in_registration_order
      [where run = calm_run and s = ?v and name = "''onEnded''" and p = Undefined,
       OF keeps_calm_run]
      calm_run_returns
    by blast
  have all: "compl (fireEvent demo_run ''onEnded'' Undefined ?u) = Normal \<longrightarrow>
             map fst (invoked (effects (fireEvent demo_run ''onEnded'' Undefined ?u))) =
             map snd (filter (\<lambda>x. fst x = ''onEnded'') (arrays ?u (handlers ?u)))"
    using fireEvent_in_registration_order
      [where run = demo_run and s = ?u and name = "''onEnded''" and p = Undefined,
       OF keeps_demo_run]
    by blast
  have stop: "compl (fireEvent demo_run ''onEnded'' Undefined ?t) = Abrupt \<and>
      effects (fireEvent demo_run ''onEnded'' Undefined ?t) =
        Fire ''onEnded'' Undefined # effects (spec_dispatch demo_run Undefined [Quiet] ?t) @
        [Invoke Thrower Undefined (effects (demo_run Thrower Undefined
           (state (spec_dispatch demo_run Undefined [Quiet] ?t))))] \<and>
      invoked (effects (fireEvent demo_run ''onEnded'' Undefined ?t)) =
        map (\<lambda>g. (g, Undefined)) ([Quiet] @ [Thrower])"
    using fireEvent_in_registration_order
      [where run = demo_run and s = ?t and name = "''onEnded''" and p = Undefined,
       OF keeps_demo_run]
      split before thrown
    by blast
  from stop have stopped: "compl (fireEvent demo_run ''onEnded'' Undefined ?t) = Abrupt"
    "effects (fireEvent demo_run ''onEnded'' Undefined ?t) =
       [Fire ''onEnded'' Undefined, Invoke Quiet Undefined [], Invoke Thrower Undefined []]"
    "invoked (effects (fireEvent demo_run ''onEnded'' Undefined ?t)) =
       [(Quiet, Undefined), (Thrower, Undefined)]"
    by (simp_all add: demo_run_simps)
  from all demo_dispatch
  have served: "map fst (invoked (effects (fireEvent demo_run ''onEnded'' Undefined ?u))) =
                [Quiet, Stopper, Quiet]"
    by simp
  let ?w = "demo_player [(''onEnded'', Quiet), (''onEnded'', Stopper)] 0"
  have "compl (fireEvent fresh_run ''onEnded'' Undefined ?w) = Normal \<and>
        (compl (fireEvent fresh_run ''onEnded'' Undefined ?w) = Normal \<longrightarrow>
         map fst (invoked (effects (fireEvent fresh_run ''onEnded'' Undefined ?w))) =
         map snd (filter (\<lambda>x. fst x = ''onEnded'') (arrays ?w (handlers ?w))))"
    using fireEvent_in_registration_order
      [where run = fresh_run and s = ?w and name = "''onEnded''" and p = Undefined,
       OF keeps_fresh_run]
      fresh_run_returns
    by blast
  then have fresh: "map fst (invoked (effects (fireEvent fresh_run ''onEnded'' Undefined ?w))) =
                    [Quiet, Stopper]"
    by (simp add: demo_player_def)
  from arrays_demo_run arrays_calm_run calm_run_returns calm
    arrays_fresh_run fresh_run_returns demo_dispatch_fresh fresh
    demo_dispatch served split before thrown stopped
  show ?thesis by simp
qed

text \<open>
  The claim C9 fails where it says that a handler's exception does not keep the later
  handlers from being invoked: with a throwing handler registered before a second one
  under the same name, \<open>fireEvent\<close> ends abruptly and has invoked the first one only.
\<close>

theorem fireEvent_failure_counterexample:
  "compl (fireEvent demo_run ''onEnded'' Undefined
     (demo_player [(''onEnded'', Thrower), (''onEnded'', Quiet)] 0)) = Abrupt \<and>
   invoked (effects (fireEvent demo_run ''onEnded'' Undefined
     (demo_player [(''onEnded'', Thrower), (''onEnded'', Quiet)] 0))) = [(Thrower, Undefined)]"
  by (simp add: fireEvent_def demo_player_def demo_run_simps)

section \<open>The end of the stream\<close>

lemma flags_inv_step:
  assumes "flags_inv s self w"
  shows "flags_inv s self (render_chunk lib self w)"
proof -
  from assms obtain e where e: "session w = s\<lparr>engine := e\<rparr>"
    unfolding flags_inv_def by blast
  then have node: "nodes (session w) self = nodes s self" by simp
  have sess: "\<exists>e'. session (render_chunk lib self w) = s\<lparr>engine := e'\<rparr>"
    using e by (auto intro: exI [of _ "snd (read_chunk lib self w)"])
  show ?thesis
    unfolding flags_inv_def
  proof (intro conjI)
    show "ended (render_chunk lib self w) \<longleftrightarrow>
          (\<exists>m n lp rp. Read m n lp rp 0 \<in> set (calls (render_chunk lib self w)))"
      using assms unfolding flags_inv_def by auto
    show "error (render_chunk lib self w) \<longleftrightarrow>
          ended (render_chunk lib self w) \<and> modulePtr (nodes s self) = 0"
      using assms node unfolding flags_inv_def by auto
    show "\<exists>e. session (render_chunk lib self w) = s\<lparr>engine := e\<rparr>" by (rule sess)
    show "list_all is_read (calls (render_chunk lib self w))"
      using assms unfolding flags_inv_def by simp
  qed
qed

lemma flags_inv_loop: "flags_inv s self (render_loop lib self (start_loop out s))"
proof (rule render_loop_invariant [where P = "flags_inv s self"])
  show "flags_inv s self (start_loop out s)"
    by (auto simp: flags_inv_def start_loop_def intro: exI [of _ "engine s"])
qed (rule flags_inv_step)

lemma fired_reads: "list_all is_read es \<Longrightarrow> fired es = []"
  by (induction es rule: fired.induct) simp_all

lemma fired_cleanup [simp]: "fired (snd (cleanup lib self s)) = []"
  by (simp add: cleanup_def release_module_def release_left_def release_right_def
      split: prod.splits)

lemma reads_cleanup [simp]: "filter is_read (snd (cleanup lib self s)) = []"
  by (simp add: cleanup_def release_module_def release_left_def release_right_def
      split: prod.splits)

lemma reads_forEach [simp]: "filter is_read (effects (forEach_handlers run name p a n k s)) = []"
  by (induction n arbitrary: k s) (simp_all split: completion.splits)

lemma reads_fireEvent [simp]: "filter is_read (effects (fireEvent run name p s)) = []"
  by (simp add: fireEvent_def)

lemma fired_fireEvent [simp]: "fired (effects (fireEvent run name p s)) = [(name, p)]"
  by (simp add: fireEvent_def)

lemma cleanup_effects:
  "snd (cleanup lib self s) =
   (if modulePtr (nodes s self) \<noteq> 0 then [Destroy (modulePtr (nodes s self))] else []) @
   (if leftBufferPtr (nodes s self) \<noteq> 0 then [Free (leftBufferPtr (nodes s self))] else []) @
   (if rightBufferPtr (nodes s self) \<noteq> 0 then [Free (rightBufferPtr (nodes s self))] else [])"
  by (simp add: cleanup_def release_module_def release_left_def release_right_def
      nodes_upd_node split: prod.splits)

lemma cleanup_connected [simp]:
  "connected (nodes (fst (cleanup lib self s)) self) = connected (nodes s self)"
  by (simp add: cleanup_def release_module_def release_left_def release_right_def
      nodes_upd_node split: prod.splits)

lemma end_of_stream_ended:
  "end_of_stream lib run self True err s =
   (fireEvent run (if err then ''onError'' else ''onEnded'')
      (if err then ErrorType ''openmpt'' else Undefined)
      (fst (cleanup lib self (fst (disconnect self s)))))
   \<lparr>effects := Disconnect self # snd (cleanup lib self (fst (disconnect self s))) @
      effects (fireEvent run (if err then ''onError'' else ''onEnded'')
        (if err then ErrorType ''openmpt'' else Undefined)
        (fst (cleanup lib self (fst (disconnect self s)))))\<rparr>"
  by (simp add: end_of_stream_def disconnect_def case_prod_beta)

lemma end_of_stream_running:
  "end_of_stream lib run self False err s = \<lparr>state = s, compl = Normal, effects = []\<rparr>"
  by (simp add: end_of_stream_def)

lemma reads_end_of_stream [simp]:
  "filter is_read (effects (end_of_stream lib run self finished err s)) = []"
  by (cases finished) (simp_all add: end_of_stream_ended end_of_stream_running)

lemma render_frames_fields:
  "effects (render_frames lib run self out s) =
     calls (render_loop lib self (start_loop out s)) @
     effects (end_of_stream lib run self (ended (render_loop lib self (start_loop out s)))
       (error (render_loop lib self (start_loop out s)))
       (session (render_loop lib self (start_loop out s))))"
  "state (render_frames lib run self out s) =
     state (end_of_stream lib run self (ended (render_loop lib self (start_loop out s)))
       (error (render_loop lib self (start_loop out s)))
       (session (render_loop lib self (start_loop out s))))"
  "compl (render_frames lib run self out s) =
     compl (end_of_stream lib run self (ended (render_loop lib self (start_loop out s)))
       (error (render_loop lib self (start_loop out s)))
       (session (render_loop lib self (start_loop out s))))"
  "outputL (render_frames lib run self out s) = outL (render_loop lib self (start_loop out s))"
  "outputR (render_frames lib run self out s) = outR (render_loop lib self (start_loop out s))"
  by (simp_all add: render_frames_def Let_def)

lemma zero_read_ended:
  "Read m n lp rp 0 \<in> set (effects (render_frames lib run self out s)) \<longleftrightarrow>
   Read m n lp rp 0 \<in> set (calls (render_loop lib self (start_loop out s)))"
proof -
  have "Read m n lp rp 0 \<in> set (effects (render_frames lib run self out s)) \<longleftrightarrow>
        Read m n lp rp 0 \<in> set (filter is_read (effects (render_frames lib run self out s)))"
    by simp
  also have "\<dots> \<longleftrightarrow> Read m n lp rp 0 \<in> set (filter is_read
      (calls (render_loop lib self (start_loop out s))))"
    by (simp only: render_frames_fields filter_append reads_end_of_stream append_Nil2)
  also have "\<dots> \<longleftrightarrow> Read m n lp rp 0 \<in> set (calls (render_loop lib self (start_loop out s)))"
    by simp
  finally show ?thesis .
qed

lemma nodes_disconnect:
  "nodes (fst (disconnect self s)) = (nodes s)(self := (nodes s self)\<lparr>connected := False\<rparr>)"
  by (simp add: disconnect_def nodes_upd_node)

lemma render_frames_zero_read:
  assumes "Read m n lp rp 0 \<in> set (effects (render_frames lib run self out s))"
  shows "fired (effects (render_frames lib run self out s)) =
           [if modulePtr (nodes s self) \<noteq> 0 then (''onEnded'', Undefined)
            else (''onError'', ErrorType ''openmpt'')] \<and>
         (\<exists>pre t.
            effects (render_frames lib run self out s) =
              pre @ effects (fireEvent run
                (if modulePtr (nodes s self) \<noteq> 0 then ''onEnded'' else ''onError'')
                (if modulePtr (nodes s self) \<noteq> 0 then Undefined else ErrorType ''openmpt'') t) \<and>
            state (render_frames lib run self out s) =
              state (fireEvent run
                (if modulePtr (nodes s self) \<noteq> 0 then ''onEnded'' else ''onError'')
                (if modulePtr (nodes s self) \<noteq> 0 then Undefined else ErrorType ''openmpt'') t) \<and>
            compl (render_frames lib run self out s) =
              compl (fireEvent run
                (if modulePtr (nodes s self) \<noteq> 0 then ''onEnded'' else ''onError'')
                (if modulePtr (nodes s self) \<noteq> 0 then Undefined else ErrorType ''openmpt'') t) \<and>
            fired pre = [] \<and> Disconnect self \<in> set pre \<and>
            (modulePtr (nodes s self) \<noteq> 0 \<longrightarrow> Destroy (modulePtr (nodes s self)) \<in> set pre) \<and>
            (leftBufferPtr (nodes s self) \<noteq> 0 \<longrightarrow> Free (leftBufferPtr (nodes s self)) \<in> set pre) \<and>
            (rightBufferPtr (nodes s self) \<noteq> 0 \<longrightarrow> Free (rightBufferPtr (nodes s self)) \<in> set pre) \<and>
            \<not> connected (nodes t self) \<and> modulePtr (nodes t self) = 0 \<and>
            leftBufferPtr (nodes t self) = 0 \<and> rightBufferPtr (nodes t self) = 0)"
proof -
  let ?v = "render_loop lib self (start_loop out s)"
  let ?name = "if modulePtr (nodes s self) \<noteq> 0 then ''onEnded'' else ''onError''"
  let ?pay = "if modulePtr (nodes s self) \<noteq> 0 then Undefined else ErrorType ''openmpt''"
  let ?d = "fst (disconnect self (session ?v))"
  let ?t = "fst (cleanup lib self ?d)"
  let ?pre = "calls ?v @ Disconnect self # snd (cleanup lib self ?d)"
  have inv: "flags_inv s self ?v" by (rule flags_inv_loop)
  from assms have "Read m n lp rp 0 \<in> set (calls ?v)" by (simp only: zero_read_ended)
  with inv have ended: "ended ?v" and error: "error ?v \<longleftrightarrow> modulePtr (nodes s self) = 0"
    unfolding flags_inv_def by blast+
  from inv obtain e where e: "session ?v = s\<lparr>engine := e\<rparr>"
    unfolding flags_inv_def by blast
  from inv have reads: "list_all is_read (calls ?v)" unfolding flags_inv_def by blast
  have node: "nodes ?d self = (nodes s self)\<lparr>connected := False\<rparr>"
    using e by (simp add: nodes_disconnect)
  have eos: "end_of_stream lib run self (ended ?v) (error ?v) (session ?v) =
             (fireEvent run ?name ?pay ?t)
             \<lparr>effects := Disconnect self # snd (cleanup lib self ?d) @
                effects (fireEvent run ?name ?pay ?t)\<rparr>"
    using ended error by (simp add: end_of_stream_ended)
  have eff: "effects (render_frames lib run self out s) =
             ?pre @ effects (fireEvent run ?name ?pay ?t)"
    by (simp add: render_frames_fields(1) eos)
  have st: "state (render_frames lib run self out s) = state (fireEvent run ?name ?pay ?t)"
    and co: "compl (render_frames lib run self out s) = compl (fireEvent run ?name ?pay ?t)"
    by (simp_all add: render_frames_fields eos)
  have quiet: "fired ?pre = []" using reads by (simp add: fired_reads)
  have disc: "Disconnect self \<in> set ?pre" by simp
  have rel: "modulePtr (nodes s self) \<noteq> 0 \<longrightarrow> Destroy (modulePtr (nodes s self)) \<in> set ?pre"
    "leftBufferPtr (nodes s self) \<noteq> 0 \<longrightarrow> Free (leftBufferPtr (nodes s self)) \<in> set ?pre"
    "rightBufferPtr (nodes s self) \<noteq> 0 \<longrightarrow> Free (rightBufferPtr (nodes s self)) \<in> set ?pre"
    by (simp_all add: cleanup_effects node)
  have torn: "\<not> connected (nodes ?t self)" "modulePtr (nodes ?t self) = 0"
    "leftBufferPtr (nodes ?t self) = 0" "rightBufferPtr (nodes ?t self) = 0"
    using cleanup_pointers [of lib self ?d] by (simp_all add: node)
  have one: "fired (effects (render_frames lib run self out s)) = [(?name, ?pay)]"
    unfolding eff using quiet by (simp only: fired_append fired_fireEvent append_Nil)
  have "\<exists>pre t.
      effects (render_frames lib run self out s) = pre @ effects (fireEvent run ?name ?pay t) \<and>
      state (render_frames lib run self out s) = state (fireEvent run ?name ?pay t) \<and>
      compl (render_frames lib run self out s) = compl (fireEvent run ?name ?pay t) \<and>
      fired pre = [] \<and> Disconnect self \<in> set pre \<and>
      (modulePtr (nodes s self) \<noteq> 0 \<longrightarrow> Destroy (modulePtr (nodes s self)) \<in> set pre) \<and>
      (leftBufferPtr (nodes s self) \<noteq> 0 \<longrightarrow> Free (leftBufferPtr (nodes s self)) \<in> set pre) \<and>
      (rightBufferPtr (nodes s self) \<noteq> 0 \<longrightarrow> Free (rightBufferPtr (nodes s self)) \<in> set pre) \<and>
      \<not> connected (nodes t self) \<and> modulePtr (nodes t self) = 0 \<and>
      leftBufferPtr (nodes t self) = 0 \<and> rightBufferPtr (nodes t self) = 0"
    using eff st co quiet disc rel torn by blast
  with one show ?thesis by (simp split: if_splits)
qed


lemma demo_stopped_eq:
  "demo_stopped hs frames =
   \<lparr>nodes = (\<lambda>n. \<lparr>modulePtr = 0, leftBufferPtr = 0, rightBufferPtr = 0, nbChannels = 0,
                    patternIndex = 0, paused = False, connected = False\<rparr>)
             (0 := \<lparr>modulePtr = 0, leftBufferPtr = 0, rightBufferPtr = 0,
                    nbChannels = 4, patternIndex = - 1, paused = False, connected = False\<rparr>),
      next_node = 1, currentPlayingNode = None, handlers = 0, arrays = (\<lambda>a. [])(0 := hs),
      touchLocked = False, repeatCount = 0, engine = (frames, 33824)\<rparr>"
  by (simp add: demo_stopped_def demo_playing_eq stop_def disconnect_def cleanup_def
      release_module_def release_left_def release_right_def upd_node_def demo_engine_def)

lemmas run_end_of_stream =
  render_frames_def Let_def end_of_stream_def disconnect_def cleanup_def release_module_def
  release_left_def release_right_def upd_node_def fireEvent_def demo_run_simps demo_engine_def

lemma demo_clean_end:
  "effects (render_frames demo_engine demo_run 0 demo_out (demo_playing [(''onEnded'', Quiet)] 0)) =
   [Read 7 3 1040 17432 0, Disconnect 0, Destroy 7, Free 1040, Free 17432,
    Fire ''onEnded'' Undefined, Invoke Quiet Undefined []]"
  by (simp add: run_chunk_loop demo_playing_eq run_end_of_stream)

lemma demo_error_end:
  "effects (render_frames demo_engine demo_run 0 demo_out (demo_stopped [(''onError'', Quiet)] 2)) =
   [Read 0 3 0 0 0, Disconnect 0, Fire ''onError'' (ErrorType ''openmpt''),
    Invoke Quiet (ErrorType ''openmpt'') []]"
  by (simp add: run_chunk_loop demo_stopped_eq run_end_of_stream)

section \<open>The error event\<close>

lemma fired_position_events:
  "set (fired (effects (position_events lib run self s))) \<subseteq>
   {(''onPatternChange'', Undefined),
    (''onRowChange'',
     RowIndex (openmpt_module_get_current_row lib (engine s) (modulePtr (nodes s self))))}"
  by (auto simp: position_events_def Let_def split: completion.splits)

lemma reads_position_events [simp]:
  "filter is_read (effects (position_events lib run self s)) = []"
  by (simp add: position_events_def Let_def split: completion.splits)

lemma live_loop_no_error:
  "modulePtr (nodes s self) \<noteq> 0 \<Longrightarrow> \<not> error (render_loop lib self (start_loop out s))"
  using flags_inv_loop [of s self lib out] by (simp add: flags_inv_def)

lemma fired_render_frames:
  "fired (effects (render_frames lib run self out s)) =
   (if ended (render_loop lib self (start_loop out s))
    then [if error (render_loop lib self (start_loop out s))
          then (''onError'', ErrorType ''openmpt'') else (''onEnded'', Undefined)]
    else [])"
proof -
  have "list_all is_read (calls (render_loop lib self (start_loop out s)))"
    using flags_inv_loop [of s self lib out] by (simp add: flags_inv_def)
  then have "fired (calls (render_loop lib self (start_loop out s))) = []"
    by (rule fired_reads)
  then show ?thesis
    by (simp add: render_frames_fields end_of_stream_ended end_of_stream_running)
qed

lemma fired_dead_session [simp]: "fired (effects (dead_session lib self out s)) = []"
  by (simp add: dead_session_def disconnect_def case_prod_beta)

lemma fired_paused_session [simp]: "fired (effects (paused_session out s)) = []"
  by (simp add: paused_session_def)

lemma reads_dead_session [simp]: "filter is_read (effects (dead_session lib self out s)) = []"
  by (simp add: dead_session_def disconnect_def case_prod_beta)

lemma live_render_frames:
  assumes "modulePtr (nodes s self) \<noteq> 0"
  shows "fired (effects (render_frames lib run self out s)) =
         (if \<exists>m n lp rp. Read m n lp rp 0 \<in> set (effects (render_frames lib run self out s))
          then [(''onEnded'', Undefined)] else [])"
proof -
  have "ended (render_loop lib self (start_loop out s)) \<longleftrightarrow>
        (\<exists>m n lp rp. Read m n lp rp 0 \<in> set (effects (render_frames lib run self out s)))"
    using flags_inv_loop [of s self lib out] by (simp add: flags_inv_def zero_read_ended)
  with live_loop_no_error [OF assms, of lib out] show ?thesis
    by (simp add: fired_render_frames)
qed


lemma onaudioprocess_live:
  assumes "modulePtr (nodes s self) \<noteq> 0" and "\<not> paused (nodes s self)"
    and "compl (position_events lib run self s) = Normal"
  shows "effects (onaudioprocess lib run self out s) =
           effects (position_events lib run self s) @
           effects (render_frames lib run self out (state (position_events lib run self s)))"
    and "outputL (onaudioprocess lib run self out s) =
           outputL (render_frames lib run self out (state (position_events lib run self s)))"
    and "outputR (onaudioprocess lib run self out s) =
           outputR (render_frames lib run self out (state (position_events lib run self s)))"
    and "state (onaudioprocess lib run self out s) =
           state (render_frames lib run self out (state (position_events lib run self s)))"
    and "compl (onaudioprocess lib run self out s) =
           compl (render_frames lib run self out (state (position_events lib run self s)))"
  using assms by (simp_all add: onaudioprocess_def)

lemma onaudioprocess_thrown:
  assumes "modulePtr (nodes s self) \<noteq> 0" and "\<not> paused (nodes s self)"
    and "compl (position_events lib run self s) = Abrupt"
  shows "onaudioprocess lib run self out s =
           \<lparr>state = state (position_events lib run self s), compl = Abrupt,
            effects = effects (position_events lib run self s),
            outputL = fst out, outputR = snd out\<rparr>"
  using assms by (simp add: onaudioprocess_def)

lemma zero_read_index:
  assumes "Read m n lp rp 0 \<in> set (effects (onaudioprocess_index lib run self out s))"
  shows "modulePtr (nodes s self) \<noteq> 0 \<and>
         onaudioprocess_index lib run self out s = render_frames lib run self out s"
proof -
  have no: "Read m n lp rp 0 \<notin> set (effects (dead_session lib self out s))"
    "Read m n lp rp 0 \<notin> set (effects (paused_session out s))"
    by (auto simp: dead_session_def disconnect_def case_prod_beta paused_session_def
        cleanup_effects)
  with assms show ?thesis
    by (auto simp: onaudioprocess_index_def split: if_splits)
qed

lemma not_read_member:
  "filter is_read es = [] \<Longrightarrow> Read m n lp rp a \<notin> set es"
  by (auto simp: filter_empty_conv)

lemma zero_read_callback:
  assumes "Read m n lp rp 0 \<in> set (effects (onaudioprocess lib run self out s))"
  shows "modulePtr (nodes s self) \<noteq> 0 \<and> \<not> paused (nodes s self) \<and>
         compl (position_events lib run self s) = Normal \<and>
         Read m n lp rp 0 \<in> set (effects (render_frames lib run self out
           (state (position_events lib run self s))))"
proof -
  have dead: "Read m n lp rp 0 \<notin> set (effects (dead_session lib self out s))"
    by (rule not_read_member) simp
  have idle: "Read m n lp rp 0 \<notin> set (effects (paused_session out s))"
    by (simp add: paused_session_def)
  have pos: "Read m n lp rp 0 \<notin> set (effects (position_events lib run self s))"
    by (rule not_read_member) simp
  from assms dead have live: "modulePtr (nodes s self) \<noteq> 0"
    by (auto simp: onaudioprocess_def)
  from assms idle live have run: "\<not> paused (nodes s self)"
    by (auto simp: onaudioprocess_def)
  have normal: "compl (position_events lib run self s) = Normal"
  proof (cases "compl (position_events lib run self s)")
    case Abrupt
    with assms pos live run show ?thesis by (simp add: onaudioprocess_thrown)
  qed
  with assms pos live run show ?thesis by (simp add: onaudioprocess_live)
qed

lemmas run_callback =
  onaudioprocess_def onaudioprocess_index_def position_events_def stop_def run_chunk_loop
  run_end_of_stream

lemma demo_index_end:
  "effects (onaudioprocess_index demo_engine demo_run 0 demo_out
     (demo_playing [(''onEnded'', Quiet)] 0)) =
   [Read 7 3 1040 17432 0, Disconnect 0, Destroy 7, Free 1040, Free 17432,
    Fire ''onEnded'' Undefined, Invoke Quiet Undefined []]"
  by (simp add: demo_playing_eq run_callback)

lemma demo_calm_end:
  "effects (onaudioprocess demo_engine calm_run 0 demo_out
     (demo_playing [(''onRowChange'', Stopper)] 0)) =
   [GetCurrentPattern 7, GetCurrentRow 7, Fire ''onPatternChange'' Undefined,
    Fire ''onRowChange'' (RowIndex 5), Invoke Stopper (RowIndex 5) [],
    Read 7 3 1040 17432 0, Disconnect 0, Destroy 7, Free 1040, Free 17432,
    Fire ''onEnded'' Undefined]"
  by (simp add: demo_playing_eq run_callback calm_run_def)

text \<open>
  C3. When a call of the chunk loop returned no frame, the callback fires one terminal
  event and no other: \<open>onEnded\<close> without payload when the handle is not zero at the loop,
  \<open>onError\<close> with \<^verbatim>\<open>{ type: 'openmpt' }\<close> when it is zero. Everything the callback did
  from the loop to the event fired no event and holds the disconnect and the release of
  whatever was still held; the event is dispatched in a state where the node is
  disconnected and its three pointers are zero, and the callback ends as the dispatch
  ends. This is stated for the loop and the end of the callback, which both files share;
  a callback of \<^verbatim>\<open>src/src/index.ts\<close> that read no frame is that part run in the state it
  was called in, and one of \<^verbatim>\<open>src/unnamed/part_000\<close> is that part run in the state the
  events of the position left, which are no terminal events.
\<close>

theorem zero_frame_read_ends_session:
  "(Read m n lp rp 0 \<in> set (effects (render_frames lib run self out s)) \<longrightarrow>
      fired (effects (render_frames lib run self out s)) =
        [if modulePtr (nodes s self) \<noteq> 0 then (''onEnded'', Undefined)
         else (''onError'', ErrorType ''openmpt'')] \<and>
      (\<exists>pre t.
         effects (render_frames lib run self out s) =
           pre @ effects (fireEvent run
             (if modulePtr (nodes s self) \<noteq> 0 then ''onEnded'' else ''onError'')
             (if modulePtr (nodes s self) \<noteq> 0 then Undefined else ErrorType ''openmpt'') t) \<and>
         state (render_frames lib run self out s) =
           state (fireEvent run
             (if modulePtr (nodes s self) \<noteq> 0 then ''onEnded'' else ''onError'')
             (if modulePtr (nodes s self) \<noteq> 0 then Undefined else ErrorType ''openmpt'') t) \<and>
         compl (render_frames lib run self out s) =
           compl (fireEvent run
             (if modulePtr (nodes s self) \<noteq> 0 then ''onEnded'' else ''onError'')
             (if modulePtr (nodes s self) \<noteq> 0 then Undefined else ErrorType ''openmpt'') t) \<and>
         fired pre = [] \<and> Disconnect self \<in> set pre \<and>
         (modulePtr (nodes s self) \<noteq> 0 \<longrightarrow> Destroy (modulePtr (nodes s self)) \<in> set pre) \<and>
         (leftBufferPtr (nodes s self) \<noteq> 0 \<longrightarrow> Free (leftBufferPtr (nodes s self)) \<in> set pre) \<and>
         (rightBufferPtr (nodes s self) \<noteq> 0 \<longrightarrow>
            Free (rightBufferPtr (nodes s self)) \<in> set pre) \<and>
         \<not> connected (nodes t self) \<and> modulePtr (nodes t self) = 0 \<and>
         leftBufferPtr (nodes t self) = 0 \<and> rightBufferPtr (nodes t self) = 0)) \<and>
   (Read m n lp rp 0 \<in> set (effects (onaudioprocess_index lib run self out s)) \<longrightarrow>
      onaudioprocess_index lib run self out s = render_frames lib run self out s) \<and>
   (Read m n lp rp 0 \<in> set (effects (onaudioprocess lib run self out s)) \<longrightarrow>
      Read m n lp rp 0 \<in> set (effects (render_frames lib run self out
        (state (position_events lib run self s)))) \<and>
      effects (onaudioprocess lib run self out s) =
        effects (position_events lib run self s) @
        effects (render_frames lib run self out (state (position_events lib run self s))) \<and>
      state (onaudioprocess lib run self out s) =
        state (render_frames lib run self out (state (position_events lib run self s))) \<and>
      compl (onaudioprocess lib run self out s) =
        compl (render_frames lib run self out (state (position_events lib run self s))) \<and>
      filter (\<lambda>e. fst e = ''onEnded'' \<or> fst e = ''onError'')
        (fired (effects (position_events lib run self s))) = [])"
proof (intro conjI impI)
  assume "Read m n lp rp 0 \<in> set (effects (render_frames lib run self out s))"
  from render_frames_zero_read [OF this]
  show "fired (effects (render_frames lib run self out s)) =
        [if modulePtr (nodes s self) \<noteq> 0 then (''onEnded'', Undefined)
         else (''onError'', ErrorType ''openmpt'')]"
    and "\<exists>pre t.
         effects (render_frames lib run self out s) =
           pre @ effects (fireEvent run
             (if modulePtr (nodes s self) \<noteq> 0 then ''onEnded'' else ''onError'')
             (if modulePtr (nodes s self) \<noteq> 0 then Undefined else ErrorType ''openmpt'') t) \<and>
         state (render_frames lib run self out s) =
           state (fireEvent run
             (if modulePtr (nodes s self) \<noteq> 0 then ''onEnded'' else ''onError'')
             (if modulePtr (nodes s self) \<noteq> 0 then Undefined else ErrorType ''openmpt'') t) \<and>
         compl (render_frames lib run self out s) =
           compl (fireEvent run
             (if modulePtr (nodes s self) \<noteq> 0 then ''onEnded'' else ''onError'')
             (if modulePtr (nodes s self) \<noteq> 0 then Undefined else ErrorType ''openmpt'') t) \<and>
         fired pre = [] \<and> Disconnect self \<in> set pre \<and>
         (modulePtr (nodes s self) \<noteq> 0 \<longrightarrow> Destroy (modulePtr (nodes s self)) \<in> set pre) \<and>
         (leftBufferPtr (nodes s self) \<noteq> 0 \<longrightarrow> Free (leftBufferPtr (nodes s self)) \<in> set pre) \<and>
         (rightBufferPtr (nodes s self) \<noteq> 0 \<longrightarrow>
            Free (rightBufferPtr (nodes s self)) \<in> set pre) \<and>
         \<not> connected (nodes t self) \<and> modulePtr (nodes t self) = 0 \<and>
         leftBufferPtr (nodes t self) = 0 \<and> rightBufferPtr (nodes t self) = 0"
    by blast+
next
  assume "Read m n lp rp 0 \<in> set (effects (onaudioprocess_index lib run self out s))"
  from zero_read_index [OF this]
  show "onaudioprocess_index lib run self out s = render_frames lib run self out s" by simp
next
  assume z: "Read m n lp rp 0 \<in> set (effects (onaudioprocess lib run self out s))"
  from zero_read_callback [OF z] have live: "modulePtr (nodes s self) \<noteq> 0"
    and run: "\<not> paused (nodes s self)"
    and normal: "compl (position_events lib run self s) = Normal"
    and zero: "Read m n lp rp 0 \<in> set (effects (render_frames lib run self out
         (state (position_events lib run self s))))"
    by simp_all
  show "Read m n lp rp 0 \<in> set (effects (render_frames lib run self out
         (state (position_events lib run self s))))"
    by (rule zero)
  show "effects (onaudioprocess lib run self out s) =
        effects (position_events lib run self s) @
        effects (render_frames lib run self out (state (position_events lib run self s)))"
    by (rule onaudioprocess_live(1) [OF live run normal])
  show "state (onaudioprocess lib run self out s) =
        state (render_frames lib run self out (state (position_events lib run self s)))"
    by (rule onaudioprocess_live(4) [OF live run normal])
  show "compl (onaudioprocess lib run self out s) =
        compl (render_frames lib run self out (state (position_events lib run self s)))"
    by (rule onaudioprocess_live(5) [OF live run normal])
  show "filter (\<lambda>e. fst e = ''onEnded'' \<or> fst e = ''onError'')
          (fired (effects (position_events lib run self s))) = []"
    using fired_position_events [of lib run self s] by (auto simp: filter_empty_conv)
qed

theorem zero_frame_read_ends_session_witness:
  "Read 7 3 1040 17432 0 \<in>
     set (effects (render_frames demo_engine demo_run 0 demo_out
       (demo_playing [(''onEnded'', Quiet)] 0))) \<and>
   modulePtr (nodes (demo_playing [(''onEnded'', Quiet)] 0) 0) = 7 \<and>
   fired (effects (render_frames demo_engine demo_run 0 demo_out
     (demo_playing [(''onEnded'', Quiet)] 0))) = [(''onEnded'', Undefined)] \<and>
   Read 0 3 0 0 0 \<in>
     set (effects (render_frames demo_engine demo_run 0 demo_out
       (demo_stopped [(''onError'', Quiet)] 2))) \<and>
   modulePtr (nodes (demo_stopped [(''onError'', Quiet)] 2) 0) = 0 \<and>
   fired (effects (render_frames demo_engine demo_run 0 demo_out
     (demo_stopped [(''onError'', Quiet)] 2))) = [(''onError'', ErrorType ''openmpt'')] \<and>
   Read 7 3 1040 17432 0 \<in> set (effects (onaudioprocess_index demo_engine demo_run 0 demo_out
     (demo_playing [(''onEnded'', Quiet)] 0))) \<and>
   onaudioprocess_index demo_engine demo_run 0 demo_out (demo_playing [(''onEnded'', Quiet)] 0) =
     render_frames demo_engine demo_run 0 demo_out (demo_playing [(''onEnded'', Quiet)] 0) \<and>
   Read 7 3 1040 17432 0 \<in> set (effects (onaudioprocess demo_engine calm_run 0 demo_out
     (demo_playing [(''onRowChange'', Stopper)] 0))) \<and>
   Read 7 3 1040 17432 0 \<in> set (effects (render_frames demo_engine calm_run 0 demo_out
     (state (position_events demo_engine calm_run 0
        (demo_playing [(''onRowChange'', Stopper)] 0)))))"
proof -
  have index: "Read 7 3 1040 17432 0 \<in> set (effects (onaudioprocess_index demo_engine demo_run 0
      demo_out (demo_playing [(''onEnded'', Quiet)] 0)))"
    by (simp add: demo_index_end)
  have calm: "Read 7 3 1040 17432 0 \<in> set (effects (onaudioprocess demo_engine calm_run 0
      demo_out (demo_playing [(''onRowChange'', Stopper)] 0)))"
    by (simp add: demo_calm_end)
  have live: "Read 7 3 1040 17432 0 \<in>
     set (effects (render_frames demo_engine demo_run 0 demo_out
       (demo_playing [(''onEnded'', Quiet)] 0)))"
    by (simp add: demo_clean_end)
  have dead: "Read 0 3 0 0 0 \<in>
     set (effects (render_frames demo_engine demo_run 0 demo_out
       (demo_stopped [(''onError'', Quiet)] 2)))"
    by (simp add: demo_error_end)
  have handle: "modulePtr (nodes (demo_playing [(''onEnded'', Quiet)] 0) 0) = 7"
    "modulePtr (nodes (demo_stopped [(''onError'', Quiet)] 2) 0) = 0"
    by (simp_all add: demo_playing_node demo_stopped_eq)
  from zero_frame_read_ends_session
      [of 7 3 1040 17432 demo_engine demo_run 0 demo_out "demo_playing [(''onEnded'', Quiet)] 0",
       THEN conjunct1]
    zero_frame_read_ends_session
      [of 0 3 0 0 demo_engine demo_run 0 demo_out "demo_stopped [(''onError'', Quiet)] 2",
       THEN conjunct1]
    zero_frame_read_ends_session
      [of 7 3 1040 17432 demo_engine demo_run 0 demo_out "demo_playing [(''onEnded'', Quiet)] 0",
       THEN conjunct2, THEN conjunct1]
    zero_frame_read_ends_session
      [of 7 3 1040 17432 demo_engine calm_run 0 demo_out
          "demo_playing [(''onRowChange'', Stopper)] 0", THEN conjunct2, THEN conjunct2]
  show ?thesis using live dead handle index calm by simp
qed

lemma fired_render_frames_by_handle:
  "fired (effects (render_frames lib run self out s)) =
   (if \<exists>m n lp rp. Read m n lp rp 0 \<in> set (effects (render_frames lib run self out s))
    then [if modulePtr (nodes s self) \<noteq> 0 then (''onEnded'', Undefined)
          else (''onError'', ErrorType ''openmpt'')]
    else [])"
proof -
  have "ended (render_loop lib self (start_loop out s)) \<longleftrightarrow>
        (\<exists>m n lp rp. Read m n lp rp 0 \<in> set (effects (render_frames lib run self out s)))"
    using flags_inv_loop [of s self lib out] by (simp add: flags_inv_def zero_read_ended)
  moreover have "error (render_loop lib self (start_loop out s)) \<longleftrightarrow>
        ended (render_loop lib self (start_loop out s)) \<and> modulePtr (nodes s self) = 0"
    using flags_inv_loop [of s self lib out] by (simp add: flags_inv_def)
  ultimately show ?thesis by (simp add: fired_render_frames)
qed

text \<open>
  When the callback of \<^verbatim>\<open>src/unnamed/part_000\<close> fires \<open>onError\<close>: the handle is zero at the
  loop though it was not at the test, and a read gave no frame.
\<close>

lemma onError_exactly:
  "(''onError'', q) \<in> set (fired (effects (onaudioprocess lib run self out s))) \<longleftrightarrow>
   q = ErrorType ''openmpt'' \<and> modulePtr (nodes s self) \<noteq> 0 \<and> \<not> paused (nodes s self) \<and>
   compl (position_events lib run self s) = Normal \<and>
   modulePtr (nodes (state (position_events lib run self s)) self) = 0 \<and>
   (\<exists>m n lp rp. Read m n lp rp 0 \<in> set (effects (onaudioprocess lib run self out s)))"
proof (cases "modulePtr (nodes s self) = 0 \<or> paused (nodes s self)")
  case True
  then show ?thesis by (auto simp: onaudioprocess_def)
next
  case False
  then have live: "modulePtr (nodes s self) \<noteq> 0" and run: "\<not> paused (nodes s self)"
    by simp_all
  have pos: "(''onError'', q) \<notin> set (fired (effects (position_events lib run self s)))"
    using fired_position_events [of lib run self s] by auto
  show ?thesis
  proof (cases "compl (position_events lib run self s)")
    case Abrupt
    with live run pos show ?thesis by (simp add: onaudioprocess_thrown)
  next
    case Normal
    let ?t = "state (position_events lib run self s)"
    have none: "Read m n lp rp 0 \<notin> set (effects (position_events lib run self s))"
      for m n lp rp
      by (rule not_read_member) simp
    have reads: "(\<exists>m n lp rp. Read m n lp rp 0 \<in> set (effects (onaudioprocess lib run self out s))) \<longleftrightarrow>
                 (\<exists>m n lp rp. Read m n lp rp 0 \<in> set (effects (render_frames lib run self out ?t)))"
      using none by (simp add: onaudioprocess_live(1) [OF live run Normal])
    have "(''onError'', q) \<in> set (fired (effects (onaudioprocess lib run self out s))) \<longleftrightarrow>
          (''onError'', q) \<in> set (fired (effects (render_frames lib run self out ?t)))"
      using pos by (simp add: onaudioprocess_live(1) [OF live run Normal])
    also have "\<dots> \<longleftrightarrow> q = ErrorType ''openmpt'' \<and> modulePtr (nodes ?t self) = 0 \<and>
          (\<exists>m n lp rp. Read m n lp rp 0 \<in> set (effects (render_frames lib run self out ?t)))"
      by (simp add: fired_render_frames_by_handle [of lib run self out ?t])
    finally show ?thesis using live run Normal reads by simp
  qed
qed

text \<open>
  C10, as the code has it. In \<^verbatim>\<open>src/src/index.ts\<close> nothing runs between the test of the
  handle and the chunk loop: the error flag of the loop is false whenever the handle is
  not zero, the callback never fires \<open>onError\<close>, and a read of no frame makes it fire
  \<open>onEnded\<close> and nothing else. In \<^verbatim>\<open>src/unnamed/part_000\<close> the handlers of
  \<open>onPatternChange\<close> and \<open>onRowChange\<close> run between the test and the loop. There the
  callback fires \<open>onError\<close> in one case and no other: the handle was not zero at the test,
  it is zero in the state the dispatch of these two events left, and a read gave no frame.
  So when the handle is not zero in the state that dispatch left, the callback fires no
  \<open>onError\<close>, and a read of no frame makes it fire \<open>onEnded\<close>.
\<close>

theorem onError_needs_a_cleared_handle:
  "(modulePtr (nodes s self) \<noteq> 0 \<longrightarrow> \<not> error (render_loop lib self (start_loop out s))) \<and>
   (''onError'', q) \<notin> set (fired (effects (onaudioprocess_index lib run self out s))) \<and>
   (Read m n lp rp 0 \<in> set (effects (onaudioprocess_index lib run self out s)) \<longrightarrow>
      fired (effects (onaudioprocess_index lib run self out s)) = [(''onEnded'', Undefined)]) \<and>
   ((''onError'', q) \<in> set (fired (effects (onaudioprocess lib run self out s))) \<longleftrightarrow>
      q = ErrorType ''openmpt'' \<and> modulePtr (nodes s self) \<noteq> 0 \<and> \<not> paused (nodes s self) \<and>
      compl (position_events lib run self s) = Normal \<and>
      modulePtr (nodes (state (position_events lib run self s)) self) = 0 \<and>
      (\<exists>m' n' lp' rp'.
         Read m' n' lp' rp' 0 \<in> set (effects (onaudioprocess lib run self out s)))) \<and>
   (modulePtr (nodes (state (position_events lib run self s)) self) \<noteq> 0 \<longrightarrow>
      (''onError'', q) \<notin> set (fired (effects (onaudioprocess lib run self out s))) \<and>
      (Read m n lp rp 0 \<in> set (effects (onaudioprocess lib run self out s)) \<longrightarrow>
         (''onEnded'', Undefined) \<in> set (fired (effects (onaudioprocess lib run self out s)))))"
proof -
  have loop: "\<not> error (render_loop lib self (start_loop out s))" if "modulePtr (nodes s self) \<noteq> 0"
    using that by (rule live_loop_no_error)
  have index: "(''onError'', q) \<notin> set (fired (effects (onaudioprocess_index lib run self out s)))"
    by (simp add: onaudioprocess_index_def live_render_frames)
  have ended: "fired (effects (onaudioprocess_index lib run self out s)) = [(''onEnded'', Undefined)]"
    if z: "Read m n lp rp 0 \<in> set (effects (onaudioprocess_index lib run self out s))"
  proof -
    from zero_read_index [OF z] have live: "modulePtr (nodes s self) \<noteq> 0"
      and eq: "onaudioprocess_index lib run self out s = render_frames lib run self out s"
      by simp_all
    from z have "\<exists>m n lp rp. Read m n lp rp 0 \<in> set (effects (render_frames lib run self out s))"
      unfolding eq by blast
    then show ?thesis unfolding eq by (simp add: live_render_frames [OF live])
  qed
  have exact: "(''onError'', q) \<in> set (fired (effects (onaudioprocess lib run self out s))) \<longleftrightarrow>
      q = ErrorType ''openmpt'' \<and> modulePtr (nodes s self) \<noteq> 0 \<and> \<not> paused (nodes s self) \<and>
      compl (position_events lib run self s) = Normal \<and>
      modulePtr (nodes (state (position_events lib run self s)) self) = 0 \<and>
      (\<exists>m' n' lp' rp'.
         Read m' n' lp' rp' 0 \<in> set (effects (onaudioprocess lib run self out s)))"
    by (rule onError_exactly)
  have kept: "(''onError'', q) \<notin> set (fired (effects (onaudioprocess lib run self out s)))"
    if "modulePtr (nodes (state (position_events lib run self s)) self) \<noteq> 0"
    using that exact by simp
  have onEnded:
    "(''onEnded'', Undefined) \<in> set (fired (effects (onaudioprocess lib run self out s)))"
    if h: "modulePtr (nodes (state (position_events lib run self s)) self) \<noteq> 0"
      and z: "Read m n lp rp 0 \<in> set (effects (onaudioprocess lib run self out s))"
  proof -
    from zero_read_callback [OF z] have live: "modulePtr (nodes s self) \<noteq> 0"
      and run: "\<not> paused (nodes s self)"
      and normal: "compl (position_events lib run self s) = Normal"
      and zero: "Read m n lp rp 0 \<in> set (effects (render_frames lib run self out
           (state (position_events lib run self s))))"
      by simp_all
    from live_render_frames [OF h, of lib run out] zero
    have "fired (effects (render_frames lib run self out
            (state (position_events lib run self s)))) = [(''onEnded'', Undefined)]"
      by auto
    with live run normal show ?thesis by (simp add: onaudioprocess_live)
  qed
  from loop index ended exact kept onEnded show ?thesis by blast
qed

lemma demo_late_stop:
  "effects (onaudioprocess demo_engine demo_run 0 demo_out
     (demo_playing [(''onEnded'', Stopper)] 0)) =
   [GetCurrentPattern 7, GetCurrentRow 7, Fire ''onPatternChange'' Undefined,
    Fire ''onRowChange'' (RowIndex 5), Read 7 3 1040 17432 0, Disconnect 0, Destroy 7,
    Free 1040, Free 17432, Fire ''onEnded'' Undefined, Invoke Stopper Undefined [Disconnect 0]]"
  by (simp add: demo_playing_eq run_callback)

lemma demo_late_stop_handle:
  "modulePtr (nodes (state (position_events demo_engine demo_run 0
     (demo_playing [(''onEnded'', Stopper)] 0))) 0) = 7"
  by (simp add: demo_playing_eq position_events_def fireEvent_def demo_run_simps demo_engine_def)

lemma demo_early_stop:
  "effects (onaudioprocess demo_engine demo_run 0 demo_out
     (demo_playing [(''onRowChange'', Stopper)] 2)) =
   [GetCurrentPattern 7, GetCurrentRow 7, Fire ''onPatternChange'' Undefined,
    Fire ''onRowChange'' (RowIndex 5),
    Invoke Stopper (RowIndex 5) [Disconnect 0, Destroy 7, Free 1040, Free 17432],
    Read 0 3 0 0 0, Disconnect 0, Fire ''onError'' (ErrorType ''openmpt'')]"
  by (simp add: demo_playing_eq run_callback)

lemma demo_early_stop_handle:
  "compl (position_events demo_engine demo_run 0
     (demo_playing [(''onRowChange'', Stopper)] 2)) = Normal \<and>
   modulePtr (nodes (state (position_events demo_engine demo_run 0
     (demo_playing [(''onRowChange'', Stopper)] 2))) 0) = 0"
  by (simp add: demo_playing_eq position_events_def fireEvent_def demo_run_simps demo_engine_def
      stop_def disconnect_def cleanup_def release_module_def release_left_def release_right_def
      upd_node_def)

theorem onError_needs_a_cleared_handle_witness:
  "modulePtr (nodes (demo_playing [(''onEnded'', Quiet)] 0) 0) = 7 \<and>
   \<not> error (render_loop demo_engine 0
       (start_loop demo_out (demo_playing [(''onEnded'', Quiet)] 0))) \<and>
   Read 7 3 1040 17432 0 \<in> set (effects (onaudioprocess_index demo_engine demo_run 0 demo_out
     (demo_playing [(''onEnded'', Quiet)] 0))) \<and>
   fired (effects (onaudioprocess_index demo_engine demo_run 0 demo_out
     (demo_playing [(''onEnded'', Quiet)] 0))) = [(''onEnded'', Undefined)] \<and>
   modulePtr (nodes (state (position_events demo_engine demo_run 0
     (demo_playing [(''onEnded'', Stopper)] 0))) 0) = 7 \<and>
   Read 7 3 1040 17432 0 \<in> set (effects (onaudioprocess demo_engine demo_run 0 demo_out
     (demo_playing [(''onEnded'', Stopper)] 0))) \<and>
   (''onEnded'', Undefined) \<in> set (fired (effects (onaudioprocess demo_engine demo_run 0 demo_out
     (demo_playing [(''onEnded'', Stopper)] 0)))) \<and>
   (''onError'', ErrorType ''openmpt'') \<notin> set (fired (effects (onaudioprocess demo_engine
     demo_run 0 demo_out (demo_playing [(''onEnded'', Stopper)] 0)))) \<and>
   modulePtr (nodes (demo_playing [(''onRowChange'', Stopper)] 2) 0) = 7 \<and>
   \<not> paused (nodes (demo_playing [(''onRowChange'', Stopper)] 2) 0) \<and>
   compl (position_events demo_engine demo_run 0
     (demo_playing [(''onRowChange'', Stopper)] 2)) = Normal \<and>
   modulePtr (nodes (state (position_events demo_engine demo_run 0
     (demo_playing [(''onRowChange'', Stopper)] 2))) 0) = 0 \<and>
   Read 0 3 0 0 0 \<in> set (effects (onaudioprocess demo_engine demo_run 0 demo_out
     (demo_playing [(''onRowChange'', Stopper)] 2))) \<and>
   (''onError'', ErrorType ''openmpt'') \<in> set (fired (effects (onaudioprocess demo_engine
     demo_run 0 demo_out (demo_playing [(''onRowChange'', Stopper)] 2))))"
proof -
  have handle: "modulePtr (nodes (demo_playing [(''onEnded'', Quiet)] 0) 0) = 7"
    "modulePtr (nodes (demo_playing [(''onRowChange'', Stopper)] 2) 0) = 7"
    "\<not> paused (nodes (demo_playing [(''onRowChange'', Stopper)] 2) 0)"
    by (simp_all add: demo_playing_eq)
  have index: "Read 7 3 1040 17432 0 \<in> set (effects (onaudioprocess_index demo_engine demo_run 0
      demo_out (demo_playing [(''onEnded'', Quiet)] 0)))"
    by (simp add: demo_index_end)
  have late: "Read 7 3 1040 17432 0 \<in> set (effects (onaudioprocess demo_engine demo_run 0
      demo_out (demo_playing [(''onEnded'', Stopper)] 0)))"
    by (simp add: demo_late_stop)
  have early: "Read 0 3 0 0 0 \<in> set (effects (onaudioprocess demo_engine demo_run 0
      demo_out (demo_playing [(''onRowChange'', Stopper)] 2)))"
    by (simp add: demo_early_stop)
  then have some: "\<exists>m' n' lp' rp'. Read m' n' lp' rp' 0 \<in> set (effects (onaudioprocess
      demo_engine demo_run 0 demo_out (demo_playing [(''onRowChange'', Stopper)] 2)))"
    by blast
  from onError_needs_a_cleared_handle
    [where s = "demo_playing [(''onEnded'', Quiet)] 0" and self = 0 and lib = demo_engine
       and out = demo_out and q = "ErrorType ''openmpt''" and run = demo_run
       and m = 7 and n = 3 and lp = 1040 and rp = 17432]
    handle(1) index
  have first: "\<not> error (render_loop demo_engine 0
       (start_loop demo_out (demo_playing [(''onEnded'', Quiet)] 0)))"
    "fired (effects (onaudioprocess_index demo_engine demo_run 0 demo_out
       (demo_playing [(''onEnded'', Quiet)] 0))) = [(''onEnded'', Undefined)]"
    by simp_all
  from onError_needs_a_cleared_handle
    [where s = "demo_playing [(''onEnded'', Stopper)] 0" and self = 0 and lib = demo_engine
       and out = demo_out and q = "ErrorType ''openmpt''" and run = demo_run
       and m = 7 and n = 3 and lp = 1040 and rp = 17432]
    demo_late_stop_handle late
  have second: "(''onEnded'', Undefined) \<in> set (fired (effects (onaudioprocess demo_engine
       demo_run 0 demo_out (demo_playing [(''onEnded'', Stopper)] 0))))"
    "(''onError'', ErrorType ''openmpt'') \<notin> set (fired (effects (onaudioprocess demo_engine
       demo_run 0 demo_out (demo_playing [(''onEnded'', Stopper)] 0))))"
    by simp_all
  from onError_needs_a_cleared_handle
    [where s = "demo_playing [(''onRowChange'', Stopper)] 2" and self = 0 and lib = demo_engine
       and out = demo_out and q = "ErrorType ''openmpt''" and run = demo_run
       and m = 0 and n = 3 and lp = 0 and rp = 0,
     THEN conjunct2, THEN conjunct2, THEN conjunct2, THEN conjunct1]
    handle(2,3) demo_early_stop_handle some
  have third: "(''onError'', ErrorType ''openmpt'') \<in> set (fired (effects (onaudioprocess
       demo_engine demo_run 0 demo_out (demo_playing [(''onRowChange'', Stopper)] 2))))"
    by simp
  from handle index late early first second third demo_late_stop_handle demo_early_stop_handle
  show ?thesis by simp
qed

text \<open>
  The claim C10 fails in \<^verbatim>\<open>src/unnamed/part_000\<close>: a handler of \<open>onRowChange\<close> that calls
  \<^verbatim>\<open>player.stop()\<close> clears the handle after the callback has tested it. With an engine
  that gives no frame for the handle \<open>0\<close>, the loop reads no frame, sets the error flag,
  and the callback fires \<open>onError\<close>.
\<close>

theorem onError_reachable_counterexample:
  "modulePtr (nodes (demo_playing [(''onRowChange'', Stopper)] 2) 0) = 7 \<and>
   paused (nodes (demo_playing [(''onRowChange'', Stopper)] 2) 0) = False \<and>
   effects (onaudioprocess demo_engine demo_run 0 demo_out
     (demo_playing [(''onRowChange'', Stopper)] 2)) =
   [GetCurrentPattern 7, GetCurrentRow 7, Fire ''onPatternChange'' Undefined,
    Fire ''onRowChange'' (RowIndex 5),
    Invoke Stopper (RowIndex 5) [Disconnect 0, Destroy 7, Free 1040, Free 17432],
    Read 0 3 0 0 0, Disconnect 0, Fire ''onError'' (ErrorType ''openmpt'')] \<and>
   fired (effects (onaudioprocess demo_engine demo_run 0 demo_out
     (demo_playing [(''onRowChange'', Stopper)] 2))) =
   [(''onPatternChange'', Undefined), (''onRowChange'', RowIndex 5),
    (''onError'', ErrorType ''openmpt'')]"
  by (simp add: demo_playing_eq run_callback)

section \<open>What the callback writes\<close>

lemma chunk_stores_below:
  assumes "j < fr" "j < length l" "0 \<le> a"
  shows "stores (\<lambda>i. int fr + i) (\<lambda>i. c) [a..int n - 1]
           (stores (\<lambda>i. int fr + int i) g [0..<nat a] l) ! j = l ! j"
proof -
  have "int j \<notin> (\<lambda>i. int fr + int i) ` set [0..<nat a]" using assms by auto
  moreover have "int j \<notin> (\<lambda>i. int fr + i) ` set [a..int n - 1]" using assms by auto
  ultimately show ?thesis using assms by (simp add: stores_untouched)
qed

lemma chunk_stores_content:
  assumes "fr \<le> j" "j < fr + n" "j < length l"
  shows "stores (\<lambda>i. int fr + i) (\<lambda>i. c) [a..int n - 1]
           (stores (\<lambda>i. int fr + int i) g [0..<nat a] l) ! j =
         (if int (j - fr) < a then g (j - fr) else c)"
proof (cases "int (j - fr) < a")
  case True
  have out: "int j \<notin> (\<lambda>i. int fr + i) ` set [a..int n - 1]" using True assms by auto
  have "distinct (map (\<lambda>i. int fr + int i) [0..<nat a])"
    by (simp add: distinct_map inj_on_def)
  moreover have "j - fr \<in> set [0..<nat a]" using True by auto
  moreover have "int fr + int (j - fr) = int j" using assms by simp
  ultimately have "stores (\<lambda>i. int fr + int i) g [0..<nat a] l ! j = g (j - fr)"
    using assms by (intro stores_last) simp_all
  with out True assms show ?thesis by (simp add: stores_untouched)
next
  case False
  then have "int fr + a \<le> int j" using assms by simp
  with False assms show ?thesis by (simp add: chunk_stores_shortfall)
qed

lemma read_chunk_nonneg: "counts_frames lib \<Longrightarrow> 0 \<le> fst (read_chunk lib self v)"
  by (simp add: counts_frames_def read_chunk_def)

lemma frames_kept_step:
  assumes "counts_frames lib" "j < framesRendered v"
  shows "j < length (outL v) \<Longrightarrow> outL (render_chunk lib self v) ! j = outL v ! j"
    and "j < length (outR v) \<Longrightarrow> outR (render_chunk lib self v) ! j = outR v ! j"
  using assms read_chunk_nonneg [of lib self v]
  by (simp_all add: outL_render_chunk outR_render_chunk chunk_stores_below)

lemma frames_kept:
  assumes "counts_frames lib" "j < framesRendered v"
  shows "(j < length (outL v) \<longrightarrow> outL (render_loop lib self v) ! j = outL v ! j) \<and>
         (j < length (outR v) \<longrightarrow> outR (render_loop lib self v) ! j = outR v ! j)"
proof -
  have "j < framesRendered (render_loop lib self v) \<and>
        length (outL (render_loop lib self v)) = length (outL v) \<and>
        length (outR (render_loop lib self v)) = length (outR v) \<and>
        (j < length (outL v) \<longrightarrow> outL (render_loop lib self v) ! j = outL v ! j) \<and>
        (j < length (outR v) \<longrightarrow> outR (render_loop lib self v) ! j = outR v ! j)"
    by (rule render_loop_invariant
          [where P = "\<lambda>w. j < framesRendered w \<and> length (outL w) = length (outL v) \<and>
             length (outR w) = length (outR v) \<and>
             (j < length (outL v) \<longrightarrow> outL w ! j = outL v ! j) \<and>
             (j < length (outR v) \<longrightarrow> outR w ! j = outR v ! j)"])
       (use assms in \<open>auto simp: frames_kept_step\<close>)
  then show ?thesis by blast
qed

lemma expected_frame_first:
  "j < maxFramesPerChunk \<Longrightarrow>
   expected_frame lib self ptr v j =
   (if int j < fst (read_chunk lib self v)
    then HEAPF32_subarray lib (snd (read_chunk lib self v)) (ptr (nodes (session v) self))
           (fst (read_chunk lib self v)) j
    else 0)"
  by (simp add: expected_frame_def)

lemma expected_frame_later:
  "maxFramesPerChunk \<le> j \<Longrightarrow>
   expected_frame lib self ptr v j =
   expected_frame lib self ptr (render_chunk lib self v) (j - maxFramesPerChunk)"
proof -
  assume le: "maxFramesPerChunk \<le> j"
  then have d: "j div maxFramesPerChunk = Suc ((j - maxFramesPerChunk) div maxFramesPerChunk)"
    by (simp add: le_div_geq maxFramesPerChunk_def)
  from le have m: "(j - maxFramesPerChunk) mod maxFramesPerChunk = j mod maxFramesPerChunk"
    by (simp add: le_mod_geq)
  show ?thesis
    unfolding expected_frame_def d m by (simp only: funpow_Suc_right o_apply)
qed

lemma loop_content:
  "counts_frames lib \<Longrightarrow> framesRendered v + framesToRender v = length (outL v) \<Longrightarrow>
   length (outR v) = length (outL v) \<Longrightarrow> framesRendered v \<le> j \<Longrightarrow> j < length (outL v) \<Longrightarrow>
   outL (render_loop lib self v) ! j =
     expected_frame lib self leftBufferPtr v (j - framesRendered v) \<and>
   outR (render_loop lib self v) ! j =
     expected_frame lib self rightBufferPtr v (j - framesRendered v)"
proof (induction lib self v rule: render_loop.induct)
  case (1 lib self v)
  from "1.prems" have cf: "counts_frames lib" by simp
  from "1.prems" have pos: "0 < framesToRender v" by simp
  let ?v' = "render_chunk lib self v"
  have step: "render_loop lib self v = render_loop lib self ?v'"
    using pos by (rule render_loop_step)
  show ?case
  proof (cases "j < framesRendered v + framesPerChunk v")
    case True
    then have first: "j - framesRendered v < maxFramesPerChunk"
      using "1.prems" framesPerChunk_max [of v] by simp
    have kept: "outL (render_loop lib self ?v') ! j = outL ?v' ! j"
      "outR (render_loop lib self ?v') ! j = outR ?v' ! j"
      using frames_kept [OF cf, of j ?v' self] True "1.prems" by simp_all
    have "outL ?v' ! j = expected_frame lib self leftBufferPtr v (j - framesRendered v)"
      using True "1.prems" first
      by (simp add: outL_render_chunk chunk_stores_content expected_frame_first)
    moreover have "outR ?v' ! j = expected_frame lib self rightBufferPtr v (j - framesRendered v)"
      using True "1.prems" first
      by (simp add: outR_render_chunk chunk_stores_content expected_frame_first)
    ultimately show ?thesis using kept step by simp
  next
    case False
    then have "framesPerChunk v < framesToRender v" using "1.prems" by simp
    then have full: "framesPerChunk v = maxFramesPerChunk"
      by (simp add: framesPerChunk_def split: if_splits)
    have later: "maxFramesPerChunk \<le> j - framesRendered v" using False full by simp
    have ih: "outL (render_loop lib self ?v') ! j =
                expected_frame lib self leftBufferPtr ?v' (j - framesRendered ?v') \<and>
              outR (render_loop lib self ?v') ! j =
                expected_frame lib self rightBufferPtr ?v' (j - framesRendered ?v')"
      using "1.IH" [OF pos cf] "1.prems" False framesPerChunk_le [of v] by simp
    have "j - framesRendered ?v' = j - framesRendered v - maxFramesPerChunk"
      using full by simp
    with ih step later show ?thesis by (simp add: expected_frame_later)
  qed
qed


lemma render_frames_filled:
  assumes "length l = N" and "length r = N"
  shows "length (outputL (render_frames lib run self (l, r) s)) = N"
    and "length (outputR (render_frames lib run self (l, r) s)) = N"
    and "length l' = N \<Longrightarrow> length r' = N \<Longrightarrow>
         outputL (render_frames lib run self (l', r') s) =
         outputL (render_frames lib run self (l, r) s) \<and>
         outputR (render_frames lib run self (l', r') s) =
         outputR (render_frames lib run self (l, r) s)"
    and "counts_frames lib \<Longrightarrow> j < N \<Longrightarrow>
         outputL (render_frames lib run self (l, r) s) ! j =
           expected_frame lib self leftBufferPtr (start_loop (l, r) s) j \<and>
         outputR (render_frames lib run self (l, r) s) ! j =
           expected_frame lib self rightBufferPtr (start_loop (l, r) s) j"
proof -
  show "length (outputL (render_frames lib run self (l, r) s)) = N"
    and "length (outputR (render_frames lib run self (l, r) s)) = N"
    using assms render_loop_lengths [of lib self "start_loop (l, r) s"]
    by (simp_all add: render_frames_fields start_loop_def)
  show "outputL (render_frames lib run self (l', r') s) =
        outputL (render_frames lib run self (l, r) s) \<and>
        outputR (render_frames lib run self (l', r') s) =
        outputR (render_frames lib run self (l, r) s)"
    if "length l' = N" "length r' = N"
    using render_loop_independent [OF assms that, of lib self s]
    by (simp add: render_frames_fields)
  show "outputL (render_frames lib run self (l, r) s) ! j =
          expected_frame lib self leftBufferPtr (start_loop (l, r) s) j \<and>
        outputR (render_frames lib run self (l, r) s) ! j =
          expected_frame lib self rightBufferPtr (start_loop (l, r) s) j"
    if "counts_frames lib" "j < N"
    using loop_content [OF that(1), of "start_loop (l, r) s" j self] that(2) assms
    by (simp add: render_frames_fields start_loop_def)
qed

lemma render_frames_writes:
  assumes "length l = N" and "length r = N"
  shows "length (outputL (render_frames lib run self (l, r) s)) = N \<and>
         length (outputR (render_frames lib run self (l, r) s)) = N \<and>
         (length l' = N \<and> length r' = N \<longrightarrow>
            outputL (render_frames lib run self (l', r') s) =
            outputL (render_frames lib run self (l, r) s) \<and>
            outputR (render_frames lib run self (l', r') s) =
            outputR (render_frames lib run self (l, r) s)) \<and>
         ((\<forall>e m n lp rp. 0 \<le> fst (openmpt_module_read_float_stereo lib e m n lp rp)) \<and> j < N \<longrightarrow>
            outputL (render_frames lib run self (l, r) s) ! j =
              expected_frame lib self leftBufferPtr (start_loop (l, r) s) j \<and>
            outputR (render_frames lib run self (l, r) s) ! j =
              expected_frame lib self rightBufferPtr (start_loop (l, r) s) j)"
proof (intro conjI impI)
  show "length (outputL (render_frames lib run self (l, r) s)) = N"
    by (rule render_frames_filled(1) [OF assms])
  show "length (outputR (render_frames lib run self (l, r) s)) = N"
    by (rule render_frames_filled(2) [OF assms])
next
  assume same: "length l' = N \<and> length r' = N"
  then have "length l' = N" "length r' = N" by simp_all
  from render_frames_filled(3) [OF assms this, of lib run self s]
  show "outputL (render_frames lib run self (l', r') s) =
        outputL (render_frames lib run self (l, r) s)"
    and "outputR (render_frames lib run self (l', r') s) =
        outputR (render_frames lib run self (l, r) s)"
    by simp_all
next
  assume "(\<forall>e m n lp rp. 0 \<le> fst (openmpt_module_read_float_stereo lib e m n lp rp)) \<and> j < N"
  then have "counts_frames lib" "j < N" by (simp_all add: counts_frames_def)
  from render_frames_filled(4) [OF assms this, of run self s]
  show "outputL (render_frames lib run self (l, r) s) ! j =
          expected_frame lib self leftBufferPtr (start_loop (l, r) s) j"
    and "outputR (render_frames lib run self (l, r) s) ! j =
          expected_frame lib self rightBufferPtr (start_loop (l, r) s) j"
    by simp_all
qed

text \<open>
  C1, as the code has it. On a session with a handle that is not zero and not paused, the
  callback of \<^verbatim>\<open>src/src/index.ts\<close> leaves a buffer of \<open>N\<close> frames with \<open>N\<close> frames in each
  channel, none of which depends on what the buffer held before: every frame is written.
  With an engine that returns frame counts (no negative number), frame \<open>j\<close> of a channel
  is the sample of the engine where the read of its chunk produced one and zero where it
  did not. The callback of \<^verbatim>\<open>src/unnamed/part_000\<close> does the same from the state the
  handlers of \<open>onPatternChange\<close> and \<open>onRowChange\<close> leave, when they return.
\<close>

theorem callback_writes_every_frame:
  assumes "modulePtr (nodes s self) \<noteq> 0" and "\<not> paused (nodes s self)"
    and "length l = N" and "length r = N"
  shows "length (outputL (onaudioprocess_index lib run self (l, r) s)) = N \<and>
         length (outputR (onaudioprocess_index lib run self (l, r) s)) = N \<and>
         (length l' = N \<and> length r' = N \<longrightarrow>
            outputL (onaudioprocess_index lib run self (l', r') s) =
            outputL (onaudioprocess_index lib run self (l, r) s) \<and>
            outputR (onaudioprocess_index lib run self (l', r') s) =
            outputR (onaudioprocess_index lib run self (l, r) s)) \<and>
         ((\<forall>e m n lp rp. 0 \<le> fst (openmpt_module_read_float_stereo lib e m n lp rp)) \<and> j < N \<longrightarrow>
            outputL (onaudioprocess_index lib run self (l, r) s) ! j =
              expected_frame lib self leftBufferPtr (start_loop (l, r) s) j \<and>
            outputR (onaudioprocess_index lib run self (l, r) s) ! j =
              expected_frame lib self rightBufferPtr (start_loop (l, r) s) j) \<and>
         (compl (position_events lib run self s) = Normal \<longrightarrow>
            length (outputL (onaudioprocess lib run self (l, r) s)) = N \<and>
            length (outputR (onaudioprocess lib run self (l, r) s)) = N \<and>
            (length l' = N \<and> length r' = N \<longrightarrow>
               outputL (onaudioprocess lib run self (l', r') s) =
               outputL (onaudioprocess lib run self (l, r) s) \<and>
               outputR (onaudioprocess lib run self (l', r') s) =
               outputR (onaudioprocess lib run self (l, r) s)) \<and>
            ((\<forall>e m n lp rp. 0 \<le> fst (openmpt_module_read_float_stereo lib e m n lp rp)) \<and> j < N \<longrightarrow>
               outputL (onaudioprocess lib run self (l, r) s) ! j =
                 expected_frame lib self leftBufferPtr
                   (start_loop (l, r) (state (position_events lib run self s))) j \<and>
               outputR (onaudioprocess lib run self (l, r) s) ! j =
                 expected_frame lib self rightBufferPtr
                   (start_loop (l, r) (state (position_events lib run self s))) j))"
proof -
  have index: "onaudioprocess_index lib run self out s = render_frames lib run self out s" for out
    using assms(1,2) by (simp add: onaudioprocess_index_def)
  have first: "length (outputL (onaudioprocess_index lib run self (l, r) s)) = N \<and>
         length (outputR (onaudioprocess_index lib run self (l, r) s)) = N \<and>
         (length l' = N \<and> length r' = N \<longrightarrow>
            outputL (onaudioprocess_index lib run self (l', r') s) =
            outputL (onaudioprocess_index lib run self (l, r) s) \<and>
            outputR (onaudioprocess_index lib run self (l', r') s) =
            outputR (onaudioprocess_index lib run self (l, r) s)) \<and>
         ((\<forall>e m n lp rp. 0 \<le> fst (openmpt_module_read_float_stereo lib e m n lp rp)) \<and> j < N \<longrightarrow>
            outputL (onaudioprocess_index lib run self (l, r) s) ! j =
              expected_frame lib self leftBufferPtr (start_loop (l, r) s) j \<and>
            outputR (onaudioprocess_index lib run self (l, r) s) ! j =
              expected_frame lib self rightBufferPtr (start_loop (l, r) s) j)"
    unfolding index by (rule render_frames_writes [OF assms(3,4)])
  have second: "length (outputL (onaudioprocess lib run self (l, r) s)) = N \<and>
            length (outputR (onaudioprocess lib run self (l, r) s)) = N \<and>
            (length l' = N \<and> length r' = N \<longrightarrow>
               outputL (onaudioprocess lib run self (l', r') s) =
               outputL (onaudioprocess lib run self (l, r) s) \<and>
               outputR (onaudioprocess lib run self (l', r') s) =
               outputR (onaudioprocess lib run self (l, r) s)) \<and>
            ((\<forall>e m n lp rp. 0 \<le> fst (openmpt_module_read_float_stereo lib e m n lp rp)) \<and> j < N \<longrightarrow>
               outputL (onaudioprocess lib run self (l, r) s) ! j =
                 expected_frame lib self leftBufferPtr
                   (start_loop (l, r) (state (position_events lib run self s))) j \<and>
               outputR (onaudioprocess lib run self (l, r) s) ! j =
                 expected_frame lib self rightBufferPtr
                   (start_loop (l, r) (state (position_events lib run self s))) j)"
    if normal: "compl (position_events lib run self s) = Normal"
    unfolding onaudioprocess_live(2,3) [OF assms(1,2) normal]
    by (rule render_frames_writes [OF assms(3,4)])
  from first second show ?thesis by blast
qed


lemma demo_engine_counts:
  "\<forall>e m n lp rp. 0 \<le> fst (openmpt_module_read_float_stereo demo_engine e m n lp rp)"
  by (simp add: demo_read)

lemma demo_render_index:
  "outputL (onaudioprocess_index demo_engine demo_run 0 demo_out (demo_playing [] 2)) =
     [1, 1, 0] \<and>
   outputR (onaudioprocess_index demo_engine demo_run 0 demo_out (demo_playing [] 2)) =
     [2, 2, 0]"
  by (simp add: demo_playing_eq run_callback)

lemma demo_position_events:
  "compl (position_events demo_engine demo_run 0 (demo_playing [(''onRowChange'', Quiet)] 2)) =
   Normal"
  by (simp add: demo_playing_eq position_events_def fireEvent_def demo_run_simps demo_engine_def)

lemma demo_render_callback:
  "outputL (onaudioprocess demo_engine demo_run 0 demo_out
     (demo_playing [(''onRowChange'', Quiet)] 2)) = [1, 1, 0] \<and>
   outputR (onaudioprocess demo_engine demo_run 0 demo_out
     (demo_playing [(''onRowChange'', Quiet)] 2)) = [2, 2, 0]"
  by (simp add: demo_playing_eq run_callback)

lemma demo_expected_frames:
  "expected_frame demo_engine 0 leftBufferPtr (start_loop demo_out (demo_playing [] 2)) 0 = 1 \<and>
   expected_frame demo_engine 0 rightBufferPtr (start_loop demo_out (demo_playing [] 2)) 0 = 2 \<and>
   expected_frame demo_engine 0 leftBufferPtr (start_loop demo_out (demo_playing [] 2)) 2 = 0"
  by (simp add: expected_frame_def demo_playing_eq run_chunk_loop)

theorem callback_writes_every_frame_witness:
  "modulePtr (nodes (demo_playing [] 2) 0) = 7 \<and>
   paused (nodes (demo_playing [] 2) 0) = False \<and>
   length (fst demo_out) = 3 \<and> length (snd demo_out) = 3 \<and>
   (\<forall>e m n lp rp. 0 \<le> fst (openmpt_module_read_float_stereo demo_engine e m n lp rp)) \<and>
   outputL (onaudioprocess_index demo_engine demo_run 0 demo_out (demo_playing [] 2)) =
     [1, 1, 0] \<and>
   outputL (onaudioprocess_index demo_engine demo_run 0 ([4, 4, 4], [3, 3, 3])
     (demo_playing [] 2)) =
   outputL (onaudioprocess_index demo_engine demo_run 0 demo_out (demo_playing [] 2)) \<and>
   outputL (onaudioprocess_index demo_engine demo_run 0 demo_out (demo_playing [] 2)) ! 0 =
     expected_frame demo_engine 0 leftBufferPtr (start_loop demo_out (demo_playing [] 2)) 0 \<and>
   expected_frame demo_engine 0 leftBufferPtr (start_loop demo_out (demo_playing [] 2)) 0 = 1 \<and>
   compl (position_events demo_engine demo_run 0 (demo_playing [(''onRowChange'', Quiet)] 2)) =
     Normal \<and>
   length (outputL (onaudioprocess demo_engine demo_run 0 demo_out
     (demo_playing [(''onRowChange'', Quiet)] 2))) = 3 \<and>
   outputL (onaudioprocess demo_engine demo_run 0 demo_out
     (demo_playing [(''onRowChange'', Quiet)] 2)) = [1, 1, 0]"
proof -
  have live: "modulePtr (nodes (demo_playing hs 2) 0) \<noteq> 0"
    "\<not> paused (nodes (demo_playing hs 2) 0)" for hs
    by (simp_all add: demo_playing_node)
  have len: "length (fst demo_out) = 3" "length (snd demo_out) = 3"
    by (simp_all add: demo_out_def)
  from callback_writes_every_frame
    [OF live [of "[]"] len, where l' = "[4, 4, 4]" and r' = "[3, 3, 3]" and lib = demo_engine
       and run = demo_run and j = 0]
    callback_writes_every_frame
    [OF live [of "[(''onRowChange'', Quiet)]"] len, where l' = "[4, 4, 4]"
       and r' = "[3, 3, 3]" and lib = demo_engine and run = demo_run and j = 0]
    demo_engine_counts demo_position_events demo_render_index demo_render_callback
    demo_expected_frames
  show ?thesis
    by (simp add: demo_playing_node demo_out_def)
qed

text \<open>
  The claim C1 fails in \<^verbatim>\<open>src/unnamed/part_000\<close> when a handler of \<open>onRowChange\<close>
  throws: the exception leaves the callback before the chunk loop, no frame is written
  (the buffer keeps the \<open>9\<close>s and \<open>8\<close>s it came with) and the engine is not asked for one.
\<close>

theorem unwritten_buffer_counterexample:
  "modulePtr (nodes (demo_playing [(''onRowChange'', Thrower)] 2) 0) = 7 \<and>
   paused (nodes (demo_playing [(''onRowChange'', Thrower)] 2) 0) = False \<and>
   onaudioprocess demo_engine demo_run 0 demo_out (demo_playing [(''onRowChange'', Thrower)] 2) =
   \<lparr>state = demo_playing [(''onRowChange'', Thrower)] 2, compl = Abrupt,
    effects = [GetCurrentPattern 7, GetCurrentRow 7, Fire ''onPatternChange'' Undefined,
               Fire ''onRowChange'' (RowIndex 5), Invoke Thrower (RowIndex 5) []],
    outputL = [9, 9, 9], outputR = [8, 8, 8]\<rparr>"
  by (simp add: demo_playing_eq onaudioprocess_def position_events_def fireEvent_def
      demo_run_simps demo_engine_def demo_out_def)

section \<open>The pattern event\<close>

lemma position_events_fires_pattern:
  "openmpt_module_get_current_pattern lib (engine s) (modulePtr (nodes s self)) \<noteq>
     patternIndex (nodes s self) \<Longrightarrow>
   fired (effects (position_events lib run self s)) \<noteq> [] \<and>
   hd (fired (effects (position_events lib run self s))) = (''onPatternChange'', Undefined)"
  by (simp add: position_events_def Let_def split: completion.splits)

text \<open>
  C2 on the code: two callbacks in a row on a playing session whose engine reports
  pattern \<open>3\<close> both times. The second callback fires \<open>onPatternChange\<close> again although
  the pattern is the one of the callback before, and the stored \<open>patternIndex\<close> is still
  the \<open>- 1\<close> it was created with: the callback compares with it and never assigns it.
\<close>

theorem pattern_event_repeats:
  "openmpt_module_get_current_pattern demo_engine
     (engine (demo_playing [(''onPatternChange'', Quiet)] 10)) 7 = 3 \<and>
   openmpt_module_get_current_pattern demo_engine
     (engine (state (onaudioprocess demo_engine demo_run 0 demo_out
        (demo_playing [(''onPatternChange'', Quiet)] 10)))) 7 = 3 \<and>
   fired (effects (onaudioprocess demo_engine demo_run 0 demo_out
     (demo_playing [(''onPatternChange'', Quiet)] 10))) =
     [(''onPatternChange'', Undefined), (''onRowChange'', RowIndex 5)] \<and>
   patternIndex (nodes (state (onaudioprocess demo_engine demo_run 0 demo_out
     (demo_playing [(''onPatternChange'', Quiet)] 10))) 0) = - 1 \<and>
   fired (effects (onaudioprocess demo_engine demo_run 0 demo_out
     (state (onaudioprocess demo_engine demo_run 0 demo_out
        (demo_playing [(''onPatternChange'', Quiet)] 10))))) =
     [(''onPatternChange'', Undefined), (''onRowChange'', RowIndex 5)] \<and>
   patternIndex (nodes (state (onaudioprocess demo_engine demo_run 0 demo_out
     (state (onaudioprocess demo_engine demo_run 0 demo_out
        (demo_playing [(''onPatternChange'', Quiet)] 10))))) 0) = - 1"
  by (simp add: demo_playing_eq run_callback)

section \<open>The queries and \<open>play\<close>\<close>

lemma queries_without_session:
  assumes "currentPlayingNode s = None"
  shows "duration lib s = Inl TypeError" and "position lib s = Inl TypeError"
    and "metadata lib s = Inl TypeError"
    and "getCurrentSpeed lib s = 0" and "getCurrentTempo lib s = 0"
    and "getPattern lib s = 0" and "getRow lib s = 0"
  using assms
  by (simp_all add: duration_def position_def metadata_def getCurrentSpeed_def
      getCurrentTempo_def getPattern_def getRow_def guarded_def)

lemma stop_clears_session: "currentPlayingNode (fst (stop lib s)) = None"
  by (cases "currentPlayingNode s") (simp_all add: stop_idle stop_current)

text \<open>
  C4 on the code: after \<^verbatim>\<open>play\<close> and \<^verbatim>\<open>stop\<close> the player has no current node. The getters
  that test the node first return \<open>0\<close>; \<open>duration\<close>, \<open>position\<close> and \<open>metadata\<close> read
  \<^verbatim>\<open>modulePtr\<close> of the missing node and throw a TypeError.
\<close>

theorem queries_after_stop:
  "currentPlayingNode (demo_stopped [] 2) = None \<and>
   duration demo_engine (demo_stopped [] 2) = Inl TypeError \<and>
   position demo_engine (demo_stopped [] 2) = Inl TypeError \<and>
   metadata demo_engine (demo_stopped [] 2) = Inl TypeError \<and>
   getCurrentSpeed demo_engine (demo_stopped [] 2) = 0 \<and>
   getCurrentTempo demo_engine (demo_stopped [] 2) = 0 \<and>
   getPattern demo_engine (demo_stopped [] 2) = 0 \<and>
   getRow demo_engine (demo_stopped [] 2) = 0"
proof -
  have none: "currentPlayingNode (demo_stopped [] 2) = None"
    by (simp add: demo_stopped_def stop_clears_session)
  from queries_without_session [OF none, of demo_engine] none show ?thesis by simp
qed

lemma play_stores_a_session:
  "\<exists>n. currentPlayingNode (fst (play lib buffer s)) = Some n \<and>
       connected (nodes (fst (play lib buffer s)) n) \<and>
       Connect n \<in> set (snd (play lib buffer s))"
  by (simp add: play_def createLibopenmptNode_def connect_def nodes_upd_node Let_def
      case_prod_beta upd_node_def)

text \<open>
  C5 on the code: \<^verbatim>\<open>play\<close> of an empty file with an engine that rejects it. The node is
  created with the handle \<open>0\<close> and is never absent, so \<^verbatim>\<open>if (!processNode) return\<close> does
  not fire: the node becomes the current node and is connected. \<open>duration\<close> then asks
  the engine about the handle \<open>0\<close>.
\<close>

theorem play_of_an_empty_file:
  "fst (openmpt_module_create_from_memory demo_engine (1024, 1040) 1024 0) = 0 \<and>
   currentPlayingNode (fst (play demo_engine [] (demo_player [] 0))) = Some 0 \<and>
   modulePtr (nodes (fst (play demo_engine [] (demo_player [] 0))) 0) = 0 \<and>
   connected (nodes (fst (play demo_engine [] (demo_player [] 0))) 0) \<and>
   snd (play demo_engine [] (demo_player [] 0)) =
     [Malloc 0 1024, HeapSet 1024, Malloc 16384 1032, CreateFromMemory 1024 0 0,
      GetNumChannels 0, Malloc 16384 17424, SetRepeatCount 0 0, Connect 0] \<and>
   duration demo_engine (fst (play demo_engine [] (demo_player [] 0))) =
     Inr (openmpt_module_get_duration_seconds demo_engine (0, 33816) 0)"
  by (simp add: play_def createLibopenmptNode_def connect_def upd_node_def Let_def
      stop_def unlock_def demo_player_def demo_engine_def maxFramesPerChunk_def duration_def)

end
